theory Spec2Isabelle
  imports Main "HOL-Library.AList"
begin

section \<open>The publish pipeline of the Pub/Sub Publisher\<close>

text \<open>
  The development embeds the publisher file of the Go client (the file that declares
  \<^verbatim>\<open>type Publisher struct\<close>, with \<^verbatim>\<open>Publish\<close>, \<^verbatim>\<open>Stop\<close>, \<^verbatim>\<open>Flush\<close>,
  \<^verbatim>\<open>initBundler\<close>, \<^verbatim>\<open>publishMessageBundle\<close> and \<^verbatim>\<open>ResumePublish\<close>).

  Conventions.
  \<^item> Go's \<^verbatim>\<open>int\<close> is HOL's \<open>int\<close>. Every integer of this file is the size of an object
    held in memory, a count of such objects or a configured limit; the arithmetic on them
    (the sum of the sizes of a bundle's messages, \<^verbatim>\<open>25 * runtime.GOMAXPROCS(0)\<close>,
    \<^verbatim>\<open>1e7 - calcFieldSizeString(name) - 5\<close>, the counters of the flow controller) stays
    inside the 64-bit range in every run that fits in memory, so no wrap-around is
    written out. A \<^verbatim>\<open>time.Duration\<close> is its number of nanoseconds.
  \<^item> Code of the repository that the publisher calls but that is declared in other
    files (the flow controller, the scheduler, the result handle) is modelled from the
    design document; each such block says so.
  \<^item> A call of the program either returns, panics (an index out of range, a nil
    scheduler) or is suspended (the flow controller's blocking policy): type \<open>outcome\<close>.
  \<^item> A \<^verbatim>\<open>*PublishResult\<close> is an address (a natural number) into the store \<open>results\<close>;
    \<open>None\<close> there is a handle that is not resolved yet.
  \<^item> The calls the publisher makes to its collaborators (flow controller, scheduler,
    result handles, the Publish RPC) are appended to \<open>trace\<close>, in program order.
  \<^item> Each operation (\<^verbatim>\<open>Publish\<close>, \<^verbatim>\<open>Stop\<close>, the handling of one bundle, ...) is
    modelled as one atomic step; locks, goroutines, timers and OpenCensus statistics are
    left out.
\<close>

subsection \<open>Errors and outcomes\<close>

text \<open>
  \<open>ErrTopicStopped\<close>, \<open>ErrTopicOrderingNotEnabled\<close> (\<^verbatim>\<open>errTopicOrderingNotEnabled\<close>),
  \<open>ErrPublishingPaused\<close> and \<open>ErrOversizedMessage\<close> are the error values of the publisher
  file. The next three are the errors of the collaborators as the design document names
  them: capacity exceeded (flow control, policy Error), cancellation (flow control,
  policy Block) and a stopped scheduler. \<open>ErrRPC\<close> stands for any terminal error of the
  Publish RPC.
\<close>

datatype error =
    ErrTopicStopped
  | ErrTopicOrderingNotEnabled
  | ErrPublishingPaused string
  | ErrOversizedMessage
  | ErrFlowControlCapacityExceeded
  | ErrContextCancelled
  | ErrSchedulerStopped
  | ErrRPC string

datatype 'a outcome = Returns 'a | Panics | Blocks

fun obind :: "'a outcome \<Rightarrow> ('a \<Rightarrow> 'b outcome) \<Rightarrow> 'b outcome" where
  "obind (Returns x) f = f x"
| "obind Panics f = Panics"
| "obind Blocks f = Blocks"

text \<open>The caller's context: only whether its cancellation fires matters here.\<close>

datatype ctx = CtxLive | CtxDone

subsection \<open>Messages, bundles, settings\<close>

record Message =
  Data :: "nat list"
  Attributes :: "(string \<times> string) list"
  OrderingKey :: string

record PubsubMessage =
  pbData :: "nat list"
  pbAttributes :: "(string \<times> string) list"
  pbOrderingKey :: string

text \<open>
  \<^verbatim>\<open>&pb.PubsubMessage{Data: msg.Data, Attributes: msg.Attributes, OrderingKey: msg.OrderingKey}\<close>,
  as written in \<^verbatim>\<open>Publish\<close> and in \<^verbatim>\<open>publishMessageBundle\<close>.
\<close>

definition toPb :: "Message \<Rightarrow> PubsubMessage" where
  "toPb m = \<lparr>pbData = Data m, pbAttributes = Attributes m, pbOrderingKey = OrderingKey m\<rparr>"

text \<open>
  \<^verbatim>\<open>type bundledMessage struct { msg *Message; res *PublishResult; size int }\<close>
  (the fields carry the prefix \<open>bm_\<close>: \<open>size\<close> is a constant of HOL).
\<close>

record bundledMessage =
  bm_msg :: Message
  bm_res :: nat
  bm_size :: int

record PublishRequest =
  Topic :: string
  Messages :: "PubsubMessage list"

datatype LimitExceededBehavior = FlowControlIgnore | FlowControlBlock | FlowControlSignalError

record FlowControlSettings =
  MaxOutstandingMessages :: int
  MaxOutstandingBytes :: int
  LimitExceededBehavior :: LimitExceededBehavior

record PublishSettings =
  DelayThreshold :: int
  CountThreshold :: int
  ByteThreshold :: int
  NumGoroutines :: int
  Timeout :: int
  BufferedByteLimit :: int
  FlowControlSettings :: FlowControlSettings
  EnableCompression :: bool
  CompressionBytesThreshold :: int

definition MaxPublishRequestCount :: int where
  "MaxPublishRequestCount = 1000"

definition MaxPublishRequestBytes :: int where
  "MaxPublishRequestBytes = 10000000"

text \<open>\<^verbatim>\<open>intSize = 32 << (^uint(0) >> 63)\<close> on a 64-bit platform.\<close>

definition intSize :: nat where
  "intSize = 64"

definition maxInt :: int where
  "maxInt = 2 ^ (intSize - 1) - 1"

definition shouldCompress :: "PublishSettings \<Rightarrow> int \<Rightarrow> bool" where
  "shouldCompress ps batchSize \<longleftrightarrow> EnableCompression ps \<and> batchSize > CompressionBytesThreshold ps"

definition DefaultPublishSettings :: PublishSettings where
  "DefaultPublishSettings =
     \<lparr>DelayThreshold = 10 * 1000000,
      CountThreshold = 100,
      ByteThreshold = 1000000,
      NumGoroutines = 0,
      Timeout = 60 * 1000000000,
      BufferedByteLimit = 10 * MaxPublishRequestBytes,
      FlowControlSettings =
        \<lparr>MaxOutstandingMessages = 1000,
         MaxOutstandingBytes = - 1,
         LimitExceededBehavior = FlowControlIgnore\<rparr>,
      EnableCompression = False,
      CompressionBytesThreshold = 240\<rparr>"

subsection \<open>The log of calls to collaborators\<close>

datatype event =
    EvAcquire int
  | EvRelease int
  | EvAdd string nat int
  | EvPause string
  | EvResume string
  | EvSetPublishResult nat string "error option"
  | EvPublishRPC PublishRequest bool

text \<open>
  What the publisher file takes from outside:
  \<^item> \<open>proto_Size\<close>: \<^verbatim>\<open>proto.Size\<close> of the protobuf library;
  \<^item> \<open>calcFieldSizeString\<close>: the helper of the same name, declared in another file of the
    package;
  \<^item> \<open>GOMAXPROCS\<close>: \<^verbatim>\<open>runtime.GOMAXPROCS(0)\<close>;
  \<^item> \<open>pubc_Publish\<close>: \<^verbatim>\<open>t.c.pubc.Publish\<close>, the Publish RPC with its retries, as the
    terminal result of the call: an error, or the \<^verbatim>\<open>MessageIds\<close> of the response. The
    result may depend on everything that happened before (the log), on the request and
    on whether gzip compression was requested for it.
\<close>

record env =
  proto_Size :: "PubsubMessage \<Rightarrow> int"
  calcFieldSizeString :: "string \<Rightarrow> int"
  GOMAXPROCS :: int
  pubc_Publish :: "event list \<Rightarrow> PublishRequest \<Rightarrow> bool \<Rightarrow> error + string list"

subsection \<open>The flow controller\<close>

text \<open>
  Modelled from the spec: the type \<^verbatim>\<open>flowController\<close> (with \<^verbatim>\<open>newTopicFlowController\<close>,
  \<^verbatim>\<open>acquire\<close> and \<^verbatim>\<open>release\<close>) is declared in another file of the package, which is not
  among the sources. It "tracks outstanding (unacknowledged-by-server) message count and
  byte volume", under the configured limits and policy.
\<close>

record flowController =
  fc_settings :: FlowControlSettings
  outstandingCount :: int
  outstandingBytes :: int

text \<open>
  Modelled from the spec: \<^verbatim>\<open>newTopicFlowController\<close> is missing. A new flow controller has
  nothing outstanding.
\<close>

definition newTopicFlowController :: "FlowControlSettings \<Rightarrow> flowController" where
  "newTopicFlowController fcs = \<lparr>fc_settings = fcs, outstandingCount = 0, outstandingBytes = 0\<rparr>"

text \<open>
  Modelled from the spec: the capacity test of \<^verbatim>\<open>acquire\<close> is missing. One more message of
  the given size breaches neither limit; "a negative/zero byte-limit or message-limit
  means unlimited for that dimension".
\<close>

definition has_capacity :: "flowController \<Rightarrow> int \<Rightarrow> bool" where
  "has_capacity fc sz \<longleftrightarrow>
     (MaxOutstandingMessages (fc_settings fc) \<le> 0
        \<or> outstandingCount fc + 1 \<le> MaxOutstandingMessages (fc_settings fc))
     \<and> (MaxOutstandingBytes (fc_settings fc) \<le> 0
        \<or> outstandingBytes fc + sz \<le> MaxOutstandingBytes (fc_settings fc))"

text \<open>
  Modelled from the spec: the reservation of \<^verbatim>\<open>acquire\<close> is missing. It "reserves capacity
  for one message of given size against the count and byte limits".
\<close>

definition reserve :: "flowController \<Rightarrow> int \<Rightarrow> flowController" where
  "reserve fc sz =
     fc\<lparr>outstandingCount := outstandingCount fc + 1, outstandingBytes := outstandingBytes fc + sz\<rparr>"

text \<open>
  Modelled from the spec: \<^verbatim>\<open>flowController.acquire\<close> is missing. Policy Ignore "always
  admits, counters may exceed configured maxima"; policy Error "returns immediately with
  a capacity-exceeded error if either limit would be breached; no partial reservation";
  policy Block "suspends the caller until capacity frees or the caller's cancellation
  fires; on cancellation returns a cancellation error without reserving". In one atomic
  step a caller that has to wait either is cancelled or stays suspended.
\<close>

definition acquire :: "flowController \<Rightarrow> ctx \<Rightarrow> int \<Rightarrow> (error option \<times> flowController) outcome" where
  "acquire fc c sz =
     (case LimitExceededBehavior (fc_settings fc) of
        FlowControlIgnore \<Rightarrow> Returns (None, reserve fc sz)
      | FlowControlSignalError \<Rightarrow>
          (if has_capacity fc sz then Returns (None, reserve fc sz)
           else Returns (Some ErrFlowControlCapacityExceeded, fc))
      | FlowControlBlock \<Rightarrow>
          (if has_capacity fc sz then Returns (None, reserve fc sz)
           else if c = CtxDone then Returns (Some ErrContextCancelled, fc)
           else Blocks))"

text \<open>
  Modelled from the spec: \<^verbatim>\<open>flowController.release\<close> is missing. "\<^verbatim>\<open>release(byteSize)\<close>
  returns capacity", that of one message.
\<close>

definition release :: "flowController \<Rightarrow> int \<Rightarrow> flowController" where
  "release fc sz =
     fc\<lparr>outstandingCount := outstandingCount fc - 1, outstandingBytes := outstandingBytes fc - sz\<rparr>"

subsection \<open>The scheduler\<close>

text \<open>
  Modelled from the spec: the type \<^verbatim>\<open>scheduler.PublishScheduler\<close> (with
  \<^verbatim>\<open>NewPublishScheduler\<close>, \<^verbatim>\<open>Add\<close>, \<^verbatim>\<open>Pause\<close>, \<^verbatim>\<open>IsPaused\<close>, \<^verbatim>\<open>Resume\<close>, \<^verbatim>\<open>Flush\<close> and
  \<^verbatim>\<open>FlushAndStop\<close>) lives in another package of the repository, which is not among the
  sources. Its first five fields are those \<^verbatim>\<open>initBundler\<close> sets (\<open>DelayThreshold_sch\<close>
  and \<open>BufferedByteLimit_sch\<close> are the scheduler's \<^verbatim>\<open>DelayThreshold\<close> and
  \<^verbatim>\<open>BufferedByteLimit\<close>). The others follow the design document: the number of workers,
  the ordering keys that are paused, one partition of pending items per ordering key,
  "created lazily per ordering key, retained indefinitely" (kept in order of creation),
  and whether the scheduler was stopped.
\<close>

record PublishScheduler =
  DelayThreshold_sch :: int
  BundleCountThreshold :: int
  BundleByteThreshold :: int
  BufferedByteLimit_sch :: int
  BundleByteLimit :: int
  workers :: int
  keysWithErrors :: "string set"
  bundlers :: "(string \<times> bundledMessage list) list"
  stopped_sch :: bool

text \<open>
  Modelled from the spec: \<^verbatim>\<open>scheduler.NewPublishScheduler\<close> is missing. A new scheduler has
  the given number of workers, no paused key and no partition, and is running; its
  thresholds and limits are Go's zero values until \<^verbatim>\<open>initBundler\<close> sets them.
\<close>

definition NewPublishScheduler :: "int \<Rightarrow> PublishScheduler" where
  "NewPublishScheduler w =
     \<lparr>DelayThreshold_sch = 0, BundleCountThreshold = 0, BundleByteThreshold = 0,
      BufferedByteLimit_sch = 0, BundleByteLimit = 0, workers = w,
      keysWithErrors = {}, bundlers = [], stopped_sch = False\<rparr>"

text \<open>
  Modelled from the spec: \<^verbatim>\<open>PublishScheduler.IsPaused\<close> is missing. The ordering-key state
  is a "mapping from ordering key to {active, paused}".
\<close>

definition IsPaused :: "PublishScheduler \<Rightarrow> string \<Rightarrow> bool" where
  "IsPaused s orderingKey \<longleftrightarrow> orderingKey \<in> keysWithErrors s"

text \<open>
  Modelled from the spec: \<^verbatim>\<open>PublishScheduler.Pause\<close> is missing. "Active to Paused on any
  publish failure for that key"; "unordered messages (no key) are never paused".
\<close>

definition Pause :: "PublishScheduler \<Rightarrow> string \<Rightarrow> PublishScheduler" where
  "Pause s orderingKey =
     (if orderingKey \<noteq> [] then s\<lparr>keysWithErrors := insert orderingKey (keysWithErrors s)\<rparr> else s)"

text \<open>
  Modelled from the spec: \<^verbatim>\<open>PublishScheduler.Resume\<close> is missing. "Paused to Active only
  on explicit resume by the caller".
\<close>

definition Resume :: "PublishScheduler \<Rightarrow> string \<Rightarrow> PublishScheduler" where
  "Resume s orderingKey = s\<lparr>keysWithErrors := keysWithErrors s - {orderingKey}\<rparr>"

text \<open>
  Modelled from the spec: the partitions are missing. The pending items of the partition
  of an ordering key; "an empty partition with no pending items performs no work".
\<close>

definition buffer :: "PublishScheduler \<Rightarrow> string \<Rightarrow> bundledMessage list" where
  "buffer s k = (case map_of (bundlers s) k of None \<Rightarrow> [] | Some b \<Rightarrow> b)"

text \<open>
  Modelled from the spec: \<^verbatim>\<open>PublishScheduler.Add\<close> is missing. "While paused, \<^verbatim>\<open>Add\<close> for
  that key returns a publishing-paused error immediately without buffering the item";
  "it returns an error if the scheduler is stopped"; "a single incoming item whose size
  exceeds the configured maximum bundle byte limit is rejected immediately with an
  oversized-item error"; otherwise the item joins the partition of its ordering key,
  behind the items already there. Where two of these rejections apply the spec does not
  say which wins; the model checks paused, stopped, oversized, in this order.
\<close>

definition Add :: "PublishScheduler \<Rightarrow> string \<Rightarrow> bundledMessage \<Rightarrow> int \<Rightarrow> error option \<times> PublishScheduler" where
  "Add s k item sz =
     (if IsPaused s k then (Some (ErrPublishingPaused k), s)
      else if stopped_sch s then (Some ErrSchedulerStopped, s)
      else if sz > BundleByteLimit s then (Some ErrOversizedMessage, s)
      else (None, s\<lparr>bundlers := AList.update k (buffer s k @ [item]) (bundlers s)\<rparr>))"

subsection \<open>The publisher\<close>

text \<open>
  The fields of \<^verbatim>\<open>type Publisher struct\<close> that the publish path reads or writes,
  followed by the store of result handles, the number of handles allocated so far and
  the log of calls.
\<close>

record Publisher =
  name :: string
  PublishSettings :: PublishSettings
  stopped :: bool
  scheduler :: "PublishScheduler option"
  flowController :: flowController
  EnableMessageOrdering :: bool
  results :: "nat \<Rightarrow> (string \<times> error option) option"
  allocated :: nat
  trace :: "event list"

text \<open>
  \<^verbatim>\<open>newPublisher(c, name)\<close>: the fields it does not name are Go's zero values; no
  handle exists yet and nothing is logged.
\<close>

definition newPublisher :: "string \<Rightarrow> Publisher" where
  "newPublisher n =
     \<lparr>name = n,
      PublishSettings = DefaultPublishSettings,
      stopped = False,
      scheduler = None,
      flowController =
        \<lparr>fc_settings = \<lparr>MaxOutstandingMessages = 0, MaxOutstandingBytes = 0,
                         LimitExceededBehavior = FlowControlIgnore\<rparr>,
         outstandingCount = 0, outstandingBytes = 0\<rparr>,
      EnableMessageOrdering = False,
      results = (\<lambda>_. None),
      allocated = 0,
      trace = []\<rparr>"

text \<open>
  Modelled from the spec: \<^verbatim>\<open>ipubsub.NewPublishResult\<close> is missing (it lives in another
  package of the repository). A handle is a future, created unresolved.
\<close>

definition NewPublishResult :: "Publisher \<Rightarrow> nat \<times> Publisher" where
  "NewPublishResult t =
     (allocated t, t\<lparr>results := (results t)(allocated t := None), allocated := Suc (allocated t)\<rparr>)"

text \<open>
  Modelled from the spec: \<^verbatim>\<open>ipubsub.SetPublishResult\<close> is missing. It resolves the handle:
  "exactly one of (server-assigned identifier, error) is set", the identifier with a nil
  error or the empty identifier with an error, as the caller passes them.
\<close>

definition SetPublishResult :: "nat \<Rightarrow> string \<Rightarrow> error option \<Rightarrow> Publisher \<Rightarrow> Publisher" where
  "SetPublishResult r sid err t =
     t\<lparr>results := (results t)(r \<mapsto> (sid, err)), trace := trace t @ [EvSetPublishResult r sid err]\<rparr>"

text \<open>
  The calls \<^verbatim>\<open>t.flowController.acquire\<close>, \<^verbatim>\<open>t.flowController.release\<close>,
  \<^verbatim>\<open>t.scheduler.IsPaused\<close>, \<^verbatim>\<open>t.scheduler.Pause\<close>, \<^verbatim>\<open>t.scheduler.Add\<close>,
  \<^verbatim>\<open>t.scheduler.Resume\<close> and \<^verbatim>\<open>t.c.pubc.Publish\<close> on the publisher's state: each
  applies the collaborator and logs the call. A call on a nil scheduler panics.
\<close>

definition t_flowController_acquire :: "ctx \<Rightarrow> int \<Rightarrow> Publisher \<Rightarrow> (error option \<times> Publisher) outcome" where
  "t_flowController_acquire c sz t =
     obind (acquire (flowController t) c sz)
       (\<lambda>(err, fc). Returns (err, t\<lparr>flowController := fc, trace := trace t @ [EvAcquire sz]\<rparr>))"

definition t_flowController_release :: "int \<Rightarrow> Publisher \<Rightarrow> Publisher" where
  "t_flowController_release sz t =
     t\<lparr>flowController := release (flowController t) sz, trace := trace t @ [EvRelease sz]\<rparr>"

definition t_scheduler_IsPaused :: "string \<Rightarrow> Publisher \<Rightarrow> bool outcome" where
  "t_scheduler_IsPaused k t =
     (case scheduler t of None \<Rightarrow> Panics | Some s \<Rightarrow> Returns (IsPaused s k))"

definition t_scheduler_Pause :: "string \<Rightarrow> Publisher \<Rightarrow> Publisher outcome" where
  "t_scheduler_Pause k t =
     (case scheduler t of
        None \<Rightarrow> Panics
      | Some s \<Rightarrow> Returns (t\<lparr>scheduler := Some (Pause s k), trace := trace t @ [EvPause k]\<rparr>))"

definition t_scheduler_Resume :: "string \<Rightarrow> Publisher \<Rightarrow> Publisher outcome" where
  "t_scheduler_Resume k t =
     (case scheduler t of
        None \<Rightarrow> Panics
      | Some s \<Rightarrow> Returns (t\<lparr>scheduler := Some (Resume s k), trace := trace t @ [EvResume k]\<rparr>))"

definition t_scheduler_Add :: "string \<Rightarrow> bundledMessage \<Rightarrow> int \<Rightarrow> Publisher \<Rightarrow> (error option \<times> Publisher) outcome" where
  "t_scheduler_Add k item sz t =
     (case scheduler t of
        None \<Rightarrow> Panics
      | Some s \<Rightarrow>
          (case Add s k item sz of
             (err, s') \<Rightarrow>
               Returns (err, t\<lparr>scheduler := Some s', trace := trace t @ [EvAdd k (bm_res item) sz]\<rparr>)))"

definition t_pubc_Publish :: "env \<Rightarrow> PublishRequest \<Rightarrow> bool \<Rightarrow> Publisher \<Rightarrow> (error + string list) \<times> Publisher" where
  "t_pubc_Publish e req gz t =
     (pubc_Publish e (trace t) req gz, t\<lparr>trace := trace t @ [EvPublishRPC req gz]\<rparr>)"

subsection \<open>initBundler\<close>

definition initBundler :: "env \<Rightarrow> Publisher \<Rightarrow> Publisher" where
  "initBundler e t =
     (if stopped t \<or> scheduler t \<noteq> None then t
      else
        let ps = PublishSettings t;
            workers0 = (if NumGoroutines ps = 0 then 25 * GOMAXPROCS e else NumGoroutines ps);
            s0 = NewPublishScheduler workers0;
            s1 = s0\<lparr>DelayThreshold_sch := DelayThreshold ps,
                    BundleCountThreshold := CountThreshold ps\<rparr>;
            s2 = (if BundleCountThreshold s1 > MaxPublishRequestCount
                  then s1\<lparr>BundleCountThreshold := MaxPublishRequestCount\<rparr> else s1);
            s3 = s2\<lparr>BundleByteThreshold := ByteThreshold ps\<rparr>;
            fcs0 = (FlowControlSettings DefaultPublishSettings)
                     \<lparr>LimitExceededBehavior := LimitExceededBehavior (FlowControlSettings ps)\<rparr>;
            fcs1 = (if MaxOutstandingBytes (FlowControlSettings ps) > 0
                    then fcs0\<lparr>MaxOutstandingBytes := MaxOutstandingBytes (FlowControlSettings ps)\<rparr>
                    else fcs0);
            ps1 = (if MaxOutstandingBytes (FlowControlSettings ps) > 0
                   then ps\<lparr>BufferedByteLimit := maxInt\<rparr> else ps);
            fcs2 = (if MaxOutstandingMessages (FlowControlSettings ps1) > 0
                    then fcs1\<lparr>MaxOutstandingMessages := MaxOutstandingMessages (FlowControlSettings ps1)\<rparr>
                    else fcs1);
            bufferedByteLimit = (if BufferedByteLimit ps1 > 0 then BufferedByteLimit ps1
                                 else BufferedByteLimit DefaultPublishSettings);
            s4 = s3\<lparr>BufferedByteLimit_sch := bufferedByteLimit\<rparr>;
            s5 = s4\<lparr>BundleByteLimit := MaxPublishRequestBytes - calcFieldSizeString e (name t) - 5\<rparr>
        in t\<lparr>PublishSettings := ps1, scheduler := Some s5, flowController := newTopicFlowController fcs2\<rparr>)"

subsection \<open>Publish\<close>

definition Publish :: "env \<Rightarrow> ctx \<Rightarrow> Message \<Rightarrow> Publisher \<Rightarrow> (nat \<times> Publisher) outcome" where
  "Publish e c m t =
     (case NewPublishResult t of
        (r, t0) \<Rightarrow>
          if \<not> EnableMessageOrdering t0 \<and> OrderingKey m \<noteq> []
          then Returns (r, SetPublishResult r [] (Some ErrTopicOrderingNotEnabled) t0)
          else
            let msgSize = proto_Size e (toPb m);
                t1 = initBundler e t0
            in if stopped t1
               then Returns (r, SetPublishResult r [] (Some ErrTopicStopped) t1)
               else
                 obind (t_flowController_acquire c msgSize t1)
                   (\<lambda>(err, t2).
                      case err of
                        Some er \<Rightarrow>
                          obind (t_scheduler_Pause (OrderingKey m) t2)
                            (\<lambda>t3. Returns (r, SetPublishResult r [] (Some er) t3))
                      | None \<Rightarrow>
                          obind (t_scheduler_Add (OrderingKey m)
                                   \<lparr>bm_msg = m, bm_res = r, bm_size = msgSize\<rparr> msgSize t2)
                            (\<lambda>(err', t3).
                               case err' of
                                 Some er \<Rightarrow>
                                   obind (t_scheduler_Pause (OrderingKey m) t3)
                                     (\<lambda>t4. Returns (r, SetPublishResult r [] (Some er) t4))
                               | None \<Rightarrow> Returns (r, t3))))"

subsection \<open>publishMessageBundle\<close>

text \<open>
  The first loop: the request's messages in bundle order (the source fills
  \<^verbatim>\<open>pbMsgs[i]\<close> for \<open>i\<close> from 0 up; the model appends), the ordering key of the last
  message (the empty string for an empty bundle) and the sum of the encoded sizes. The
  loop also sets \<^verbatim>\<open>bm.msg = nil\<close>, for the garbage collector; nothing reads the field
  afterwards, and the model keeps the message.
\<close>

fun encode_loop :: "(PubsubMessage \<Rightarrow> int) \<Rightarrow> bundledMessage list
    \<Rightarrow> PubsubMessage list \<times> string \<times> int \<Rightarrow> PubsubMessage list \<times> string \<times> int" where
  "encode_loop psz [] acc = acc"
| "encode_loop psz (bm # bms) (pbMsgs, orderingKey, batchSize) =
     encode_loop psz bms
       (pbMsgs @ [toPb (bm_msg bm)], OrderingKey (bm_msg bm), batchSize + psz (toPb (bm_msg bm)))"

text \<open>
  The second loop, from index \<open>i\<close>: release, then resolve the handle; on success
  \<^verbatim>\<open>res.MessageIds[i]\<close> panics when the response has no identifier at \<open>i\<close>.
\<close>

fun result_loop :: "error + string list \<Rightarrow> nat \<Rightarrow> bundledMessage list \<Rightarrow> Publisher \<Rightarrow> Publisher outcome" where
  "result_loop res i [] t = Returns t"
| "result_loop res i (bm # bms) t =
     (let t1 = t_flowController_release (bm_size bm) t
      in case res of
           Inl er \<Rightarrow> result_loop res (Suc i) bms (SetPublishResult (bm_res bm) [] (Some er) t1)
         | Inr MessageIds \<Rightarrow>
             if i < length MessageIds
             then result_loop res (Suc i) bms (SetPublishResult (bm_res bm) (MessageIds ! i) None t1)
             else Panics)"

definition publishMessageBundle :: "env \<Rightarrow> bundledMessage list \<Rightarrow> Publisher \<Rightarrow> Publisher outcome" where
  "publishMessageBundle e bms t =
     (case encode_loop (proto_Size e) bms ([], [], 0) of
        (pbMsgs, orderingKey, batchSize) \<Rightarrow>
          obind (if orderingKey \<noteq> [] then t_scheduler_IsPaused orderingKey t else Returns False)
            (\<lambda>paused.
               case (if paused then (Inl (ErrPublishingPaused orderingKey), t)
                     else t_pubc_Publish e \<lparr>Topic = name t, Messages = pbMsgs\<rparr>
                            (shouldCompress (PublishSettings t) batchSize) t) of
                 (res, t1) \<Rightarrow>
                   obind (case res of Inl er \<Rightarrow> t_scheduler_Pause orderingKey t1 | Inr _ \<Rightarrow> Returns t1)
                     (\<lambda>t2. result_loop res 0 bms t2)))"

subsection \<open>Dispatch, Flush, Stop, ResumePublish\<close>

text \<open>
  Modelled from the spec: the scheduler's worker is missing. A worker takes a bundle from
  the partition of one ordering key, in the order the items were added, and runs the
  handler that \<^verbatim>\<open>initBundler\<close> installed, which is \<^verbatim>\<open>publishMessageBundle\<close> (under a
  context with the configured timeout, which only the RPC sees). The thresholds decide
  where a bundle is cut; here a worker may take any number \<open>n\<close> of the pending items, which
  covers every setting of the thresholds and every firing of the delay timer. Nothing
  happens for an empty bundle.
\<close>

definition dispatch :: "env \<Rightarrow> string \<Rightarrow> nat \<Rightarrow> Publisher \<Rightarrow> Publisher outcome" where
  "dispatch e k n t =
     (case scheduler t of
        None \<Rightarrow> Panics
      | Some s \<Rightarrow>
          if take n (buffer s k) = [] then Returns t
          else publishMessageBundle e (take n (buffer s k))
                 (t\<lparr>scheduler := Some (s\<lparr>bundlers := AList.update k (drop n (buffer s k)) (bundlers s)\<rparr>)\<rparr>))"

text \<open>
  Modelled from the spec: the loop of \<^verbatim>\<open>PublishScheduler.Flush\<close> is missing. The pending
  items of each of the given partitions are handled, one partition after the other.
\<close>

fun flush_keys :: "env \<Rightarrow> string list \<Rightarrow> Publisher \<Rightarrow> Publisher outcome" where
  "flush_keys e [] t = Returns t"
| "flush_keys e (k # ks) t =
     obind (case scheduler t of
              None \<Rightarrow> Panics
            | Some s \<Rightarrow> dispatch e k (length (buffer s k)) t)
       (flush_keys e ks)"

text \<open>
  Modelled from the spec: \<^verbatim>\<open>PublishScheduler.Flush\<close> is missing. "\<^verbatim>\<open>Flush\<close> blocks the
  caller until all currently-buffered bundles (across all partitions) have been sent and
  their results distributed."
\<close>

definition t_scheduler_Flush :: "env \<Rightarrow> Publisher \<Rightarrow> Publisher outcome" where
  "t_scheduler_Flush e t =
     (case scheduler t of None \<Rightarrow> Panics | Some s \<Rightarrow> flush_keys e (map fst (bundlers s)) t)"

text \<open>
  Modelled from the spec: \<^verbatim>\<open>PublishScheduler.FlushAndStop\<close> is missing. "\<^verbatim>\<open>FlushAndStop\<close>
  additionally prevents further \<^verbatim>\<open>Add\<close> calls once flushing completes."
\<close>

definition t_scheduler_FlushAndStop :: "env \<Rightarrow> Publisher \<Rightarrow> Publisher outcome" where
  "t_scheduler_FlushAndStop e t =
     obind (t_scheduler_Flush e t)
       (\<lambda>t1. case scheduler t1 of
                None \<Rightarrow> Panics
              | Some s \<Rightarrow> Returns (t1\<lparr>scheduler := Some (s\<lparr>stopped_sch := True\<rparr>)\<rparr>))"

definition Stop :: "env \<Rightarrow> Publisher \<Rightarrow> Publisher outcome" where
  "Stop e t =
     (let noop = (stopped t \<or> scheduler t = None);
          t1 = t\<lparr>stopped := True\<rparr>
      in if noop then Returns t1 else t_scheduler_FlushAndStop e t1)"

definition Flush :: "env \<Rightarrow> Publisher \<Rightarrow> Publisher outcome" where
  "Flush e t = (if stopped t \<or> scheduler t = None then Returns t else t_scheduler_Flush e t)"

definition ResumePublish :: "string \<Rightarrow> Publisher \<Rightarrow> Publisher outcome" where
  "ResumePublish orderingKey t =
     (let noop = (scheduler t = None)
      in if noop then Returns t else t_scheduler_Resume orderingKey t)"

subsection \<open>Runs\<close>

text \<open>
  What can happen to a publisher: the calls of its public methods, and a worker of the
  scheduler handling a bundle.
\<close>

datatype op =
    OpPublish ctx Message
  | OpStop
  | OpFlush
  | OpResumePublish string
  | OpDispatch string nat

fun step :: "env \<Rightarrow> op \<Rightarrow> Publisher \<Rightarrow> Publisher outcome" where
  "step e (OpPublish c m) t = obind (Publish e c m t) (\<lambda>(r, t'). Returns t')"
| "step e OpStop t = Stop e t"
| "step e OpFlush t = Flush e t"
| "step e (OpResumePublish k) t = ResumePublish k t"
| "step e (OpDispatch k n) t = dispatch e k n t"

fun run :: "env \<Rightarrow> op list \<Rightarrow> Publisher \<Rightarrow> Publisher outcome" where
  "run e [] t = Returns t"
| "run e (x # xs) t = obind (step e x t) (run e xs)"

subsection \<open>The bundle as the first loop reads it\<close>

text \<open>
  The three results of the first loop of \<^verbatim>\<open>publishMessageBundle\<close>, each on its own
  (lemma \<open>encode_loop_init\<close> below): the ordering key the bundle is handled under, the
  request and the batch size.
\<close>

definition bundle_key :: "bundledMessage list \<Rightarrow> string" where
  "bundle_key bms = (if bms = [] then [] else OrderingKey (bm_msg (last bms)))"

definition bundle_request :: "Publisher \<Rightarrow> bundledMessage list \<Rightarrow> PublishRequest" where
  "bundle_request t bms = \<lparr>Topic = name t, Messages = map (\<lambda>bm. toPb (bm_msg bm)) bms\<rparr>"

definition batch_size :: "env \<Rightarrow> bundledMessage list \<Rightarrow> int" where
  "batch_size e bms = sum_list (map (\<lambda>bm. proto_Size e (toPb (bm_msg bm))) bms)"

subsection \<open>Reading the log\<close>

text \<open>
  The calls of one kind in a log, in the order they were made: the sizes acquired and
  released, the items added (key, handle, size), the keys paused, the handles resolved
  (handle, identifier, error) and the Publish requests sent (with the compression flag).
\<close>

definition acquired :: "event list \<Rightarrow> int list" where
  "acquired evs = concat (map (\<lambda>ev. case ev of EvAcquire n \<Rightarrow> [n] | _ \<Rightarrow> []) evs)"

definition released :: "event list \<Rightarrow> int list" where
  "released evs = concat (map (\<lambda>ev. case ev of EvRelease n \<Rightarrow> [n] | _ \<Rightarrow> []) evs)"

definition adds :: "event list \<Rightarrow> (string \<times> nat \<times> int) list" where
  "adds evs = concat (map (\<lambda>ev. case ev of EvAdd k r n \<Rightarrow> [(k, r, n)] | _ \<Rightarrow> []) evs)"

definition pauses :: "event list \<Rightarrow> string list" where
  "pauses evs = concat (map (\<lambda>ev. case ev of EvPause k \<Rightarrow> [k] | _ \<Rightarrow> []) evs)"

definition resolved :: "event list \<Rightarrow> (nat \<times> string \<times> error option) list" where
  "resolved evs = concat (map (\<lambda>ev. case ev of EvSetPublishResult r sid err \<Rightarrow> [(r, sid, err)] | _ \<Rightarrow> []) evs)"

definition rpcs :: "event list \<Rightarrow> (PublishRequest \<times> bool) list" where
  "rpcs evs = concat (map (\<lambda>ev. case ev of EvPublishRPC q g \<Rightarrow> [(q, g)] | _ \<Rightarrow> []) evs)"

subsection \<open>Auxiliary notions\<close>

text \<open>
  The value of the handle a \<^verbatim>\<open>Publish\<close> call returned; what no operation but
  \<^verbatim>\<open>ResumePublish\<close> undoes (a stopped publisher stays stopped, the ordering flag stays,
  a set scheduler stays set and its paused keys stay paused); and the invariant of the
  partitions: within a partition the handles are distinct, and all were allocated.
\<close>

definition result_of :: "(nat \<times> Publisher) outcome \<Rightarrow> (string \<times> error option) option" where
  "result_of out = (case out of Returns (r, t') \<Rightarrow> results t' r | _ \<Rightarrow> None)"

definition grows :: "Publisher \<Rightarrow> Publisher \<Rightarrow> bool" where
  "grows t t' \<longleftrightarrow>
     (stopped t \<longrightarrow> stopped t')
     \<and> EnableMessageOrdering t' = EnableMessageOrdering t
     \<and> (\<forall>s. scheduler t = Some s \<longrightarrow>
           (\<exists>s'. scheduler t' = Some s' \<and> keysWithErrors s \<subseteq> keysWithErrors s'))"

definition fresh :: "Publisher \<Rightarrow> bool" where
  "fresh t \<longleftrightarrow>
     (\<forall>s. scheduler t = Some s \<longrightarrow>
        (\<forall>k. distinct (map bm_res (buffer s k))
           \<and> (\<forall>bm \<in> set (buffer s k). bm_res bm < allocated t)))"

subsection \<open>A small configuration\<close>

text \<open>
  Concrete inputs for the instances below: an environment where the RPC fails for the
  topic \<open>''down''\<close> and otherwise answers with two identifiers; the scheduler that
  \<^verbatim>\<open>initBundler\<close> builds from the default settings for a topic name; publishers with
  ordering enabled and the scheduler initialised (plain; with compression above 5 bytes;
  before initialisation and with a byte limit of 1 under the policy Error; with the key
  \<open>''k''\<close> paused); a stopped publisher without ordering and without scheduler; the plain
  publisher after \<^verbatim>\<open>Stop\<close>; a bundle of two messages with the ordering key \<open>''k''\<close>; and a
  message with that key.
\<close>

definition ex_env :: env where
  "ex_env =
     \<lparr>proto_Size = (\<lambda>p. int (length (pbData p)) + 2),
      calcFieldSizeString = (\<lambda>n. int (length n) + 2),
      GOMAXPROCS = 4,
      pubc_Publish = (\<lambda>tr req gz. if Topic req = ''down'' then Inl (ErrRPC ''unavailable'')
                                    else Inr [''101'', ''102''])\<rparr>"

definition ex_scheduler :: "string \<Rightarrow> PublishScheduler" where
  "ex_scheduler n =
     \<lparr>DelayThreshold_sch = 10000000, BundleCountThreshold = 100, BundleByteThreshold = 1000000,
      BufferedByteLimit_sch = 100000000, BundleByteLimit = 9999993 - int (length n),
      workers = 100, keysWithErrors = {}, bundlers = [], stopped_sch = False\<rparr>"

definition ex_publisher :: "string \<Rightarrow> Publisher" where
  "ex_publisher n = initBundler ex_env ((newPublisher n)\<lparr>EnableMessageOrdering := True\<rparr>)"

definition ex_compressing :: Publisher where
  "ex_compressing =
     initBundler ex_env
       ((newPublisher ''up'')
          \<lparr>PublishSettings := DefaultPublishSettings\<lparr>EnableCompression := True, CompressionBytesThreshold := 5\<rparr>,
           EnableMessageOrdering := True\<rparr>)"

definition ex_limited :: Publisher where
  "ex_limited =
     (newPublisher ''up'')
       \<lparr>PublishSettings :=
          DefaultPublishSettings
            \<lparr>FlowControlSettings :=
               \<lparr>MaxOutstandingMessages = 1000, MaxOutstandingBytes = 1,
                LimitExceededBehavior = FlowControlSignalError\<rparr>\<rparr>,
        EnableMessageOrdering := True\<rparr>"

definition ex_paused :: Publisher where
  "ex_paused = (ex_publisher ''up'')\<lparr>scheduler := Some (Pause (ex_scheduler ''up'') ''k'')\<rparr>"

definition ex_stopped :: Publisher where
  "ex_stopped = (newPublisher ''up'')\<lparr>stopped := True\<rparr>"

definition ex_flushed :: Publisher where
  "ex_flushed = (ex_publisher ''up'')\<lparr>stopped := True,
      scheduler := Some ((ex_scheduler ''up'')\<lparr>stopped_sch := True\<rparr>)\<rparr>"

definition ex_bundle :: "bundledMessage list" where
  "ex_bundle =
     [\<lparr>bm_msg = \<lparr>Data = [1, 2, 3], Attributes = [], OrderingKey = ''k''\<rparr>, bm_res = 0, bm_size = 5\<rparr>,
      \<lparr>bm_msg = \<lparr>Data = [4], Attributes = [], OrderingKey = ''k''\<rparr>, bm_res = 1, bm_size = 3\<rparr>]"

definition ex_keyed :: Message where
  "ex_keyed = \<lparr>Data = [7, 8], Attributes = [(''a'', ''b'')], OrderingKey = ''k''\<rparr>"

section \<open>Properties\<close>

subsection \<open>The log and the loops\<close>

lemma obind_Returns_iff:
  "obind m f = Returns y \<longleftrightarrow> (\<exists>x. m = Returns x \<and> f x = Returns y)"
  by (cases m) auto

lemma acquired_append [simp]: "acquired (xs @ ys) = acquired xs @ acquired ys"
  by (simp add: acquired_def)

lemma acquired_simps [simp]:
  "acquired [] = []"
  "acquired (EvRelease n # evs) = acquired evs"
  "acquired (EvAcquire n # evs) = n # acquired evs"
  "acquired (EvAdd k r n # evs) = acquired evs"
  "acquired (EvPause k # evs) = acquired evs"
  "acquired (EvResume k # evs) = acquired evs"
  "acquired (EvSetPublishResult r sid err # evs) = acquired evs"
  "acquired (EvPublishRPC q g # evs) = acquired evs"
  by (simp_all add: acquired_def)

lemma released_append [simp]: "released (xs @ ys) = released xs @ released ys"
  by (simp add: released_def)

lemma released_simps [simp]:
  "released [] = []"
  "released (EvRelease n # evs) = n # released evs"
  "released (EvAcquire n # evs) = released evs"
  "released (EvAdd k r n # evs) = released evs"
  "released (EvPause k # evs) = released evs"
  "released (EvResume k # evs) = released evs"
  "released (EvSetPublishResult r sid err # evs) = released evs"
  "released (EvPublishRPC q g # evs) = released evs"
  by (simp_all add: released_def)

lemma adds_append [simp]: "adds (xs @ ys) = adds xs @ adds ys"
  by (simp add: adds_def)

lemma adds_simps [simp]:
  "adds [] = []"
  "adds (EvRelease n # evs) = adds evs"
  "adds (EvAcquire n # evs) = adds evs"
  "adds (EvAdd k r n # evs) = (k, r, n) # adds evs"
  "adds (EvPause k # evs) = adds evs"
  "adds (EvResume k # evs) = adds evs"
  "adds (EvSetPublishResult r sid err # evs) = adds evs"
  "adds (EvPublishRPC q g # evs) = adds evs"
  by (simp_all add: adds_def)

lemma pauses_append [simp]: "pauses (xs @ ys) = pauses xs @ pauses ys"
  by (simp add: pauses_def)

lemma pauses_simps [simp]:
  "pauses [] = []"
  "pauses (EvRelease n # evs) = pauses evs"
  "pauses (EvAcquire n # evs) = pauses evs"
  "pauses (EvAdd k r n # evs) = pauses evs"
  "pauses (EvPause k # evs) = k # pauses evs"
  "pauses (EvResume k # evs) = pauses evs"
  "pauses (EvSetPublishResult r sid err # evs) = pauses evs"
  "pauses (EvPublishRPC q g # evs) = pauses evs"
  by (simp_all add: pauses_def)

lemma resolved_append [simp]: "resolved (xs @ ys) = resolved xs @ resolved ys"
  by (simp add: resolved_def)

lemma resolved_simps [simp]:
  "resolved [] = []"
  "resolved (EvRelease n # evs) = resolved evs"
  "resolved (EvAcquire n # evs) = resolved evs"
  "resolved (EvAdd k r n # evs) = resolved evs"
  "resolved (EvPause k # evs) = resolved evs"
  "resolved (EvResume k # evs) = resolved evs"
  "resolved (EvSetPublishResult r sid err # evs) = (r, sid, err) # resolved evs"
  "resolved (EvPublishRPC q g # evs) = resolved evs"
  by (simp_all add: resolved_def)

lemma rpcs_append [simp]: "rpcs (xs @ ys) = rpcs xs @ rpcs ys"
  by (simp add: rpcs_def)

lemma rpcs_simps [simp]:
  "rpcs [] = []"
  "rpcs (EvRelease n # evs) = rpcs evs"
  "rpcs (EvAcquire n # evs) = rpcs evs"
  "rpcs (EvAdd k r n # evs) = rpcs evs"
  "rpcs (EvPause k # evs) = rpcs evs"
  "rpcs (EvResume k # evs) = rpcs evs"
  "rpcs (EvSetPublishResult r sid err # evs) = rpcs evs"
  "rpcs (EvPublishRPC q g # evs) = (q, g) # rpcs evs"
  by (simp_all add: rpcs_def)

lemma encode_loop_eq:
  "encode_loop psz bms (p, k, b) =
     (p @ map (\<lambda>bm. toPb (bm_msg bm)) bms,
      (if bms = [] then k else OrderingKey (bm_msg (last bms))),
      b + sum_list (map (\<lambda>bm. psz (toPb (bm_msg bm))) bms))"
  by (induction bms arbitrary: p k b) auto

lemma encode_loop_init:
  "encode_loop (proto_Size e) bms ([], [], 0) =
     (Messages (bundle_request t bms), bundle_key bms, batch_size e bms)"
  by (simp add: encode_loop_eq bundle_key_def bundle_request_def batch_size_def)

lemma result_loop_returns_Inl: "\<exists>t'. result_loop (Inl er) i bms t = Returns t'"
  by (induction bms arbitrary: i t) (simp_all add: Let_def)

lemma result_loop_returns_Inr:
  "i + length bms \<le> length ids \<Longrightarrow> \<exists>t'. result_loop (Inr ids) i bms t = Returns t'"
  by (induction bms arbitrary: i t) (simp_all add: Let_def)

lemma result_loop_frame:
  "result_loop res i bms t = Returns t' \<Longrightarrow>
     scheduler t' = scheduler t \<and> PublishSettings t' = PublishSettings t \<and> stopped t' = stopped t
     \<and> name t' = name t \<and> EnableMessageOrdering t' = EnableMessageOrdering t
     \<and> allocated t' = allocated t
     \<and> flowController t' = foldl release (flowController t) (map bm_size bms)"
proof (induction bms arbitrary: i t)
  case Nil
  then show ?case by simp
next
  case (Cons bm bms)
  then show ?case
    by (cases res)
      (auto simp add: Let_def t_flowController_release_def SetPublishResult_def split: if_splits)
qed

lemma result_loop_other_handles:
  "result_loop res i bms t = Returns t' \<Longrightarrow> h \<notin> bm_res ` set bms \<Longrightarrow> results t' h = results t h"
proof (induction bms arbitrary: i t)
  case Nil
  then show ?case by simp
next
  case (Cons bm bms)
  then show ?case
    by (cases res)
      (auto simp add: Let_def t_flowController_release_def SetPublishResult_def split: if_splits)
qed

lemma result_loop_Inl_results:
  "result_loop (Inl er) i bms t = Returns t' \<Longrightarrow> bm \<in> set bms \<Longrightarrow>
     results t' (bm_res bm) = Some ([], Some er)"
proof (induction bms arbitrary: i t bm)
  case Nil
  then show ?case by simp
next
  case (Cons b bms)
  let ?t1 = "SetPublishResult (bm_res b) [] (Some er) (t_flowController_release (bm_size b) t)"
  from Cons.prems have run: "result_loop (Inl er) (Suc i) bms ?t1 = Returns t'"
    by (simp add: Let_def)
  show ?case
  proof (cases "bm_res bm \<in> bm_res ` set bms")
    case True
    then obtain b' where "b' \<in> set bms" "bm_res b' = bm_res bm" by auto
    with Cons.IH [OF run, of b'] show ?thesis by simp
  next
    case False
    with Cons.prems have "bm = b" by auto
    with False result_loop_other_handles [OF run, of "bm_res bm"] show ?thesis
      by (simp add: SetPublishResult_def t_flowController_release_def)
  qed
qed

lemma result_loop_Inr_results:
  "result_loop (Inr ids) i bms t = Returns t' \<Longrightarrow> distinct (map bm_res bms) \<Longrightarrow> j < length bms \<Longrightarrow>
     results t' (bm_res (bms ! j)) = Some (ids ! (i + j), None)"
proof (induction bms arbitrary: i j t)
  case Nil
  then show ?case by simp
next
  case (Cons b bms)
  let ?t1 = "SetPublishResult (bm_res b) (ids ! i) None (t_flowController_release (bm_size b) t)"
  from Cons.prems have run: "result_loop (Inr ids) (Suc i) bms ?t1 = Returns t'"
    by (simp add: Let_def split: if_splits)
  show ?case
  proof (cases j)
    case 0
    from Cons.prems have "bm_res b \<notin> bm_res ` set bms" by simp
    from result_loop_other_handles [OF run this] 0 show ?thesis
      by (simp add: SetPublishResult_def t_flowController_release_def)
  next
    case (Suc j')
    with Cons.prems have "distinct (map bm_res bms)" "j' < length bms" by simp_all
    from Cons.IH [OF run this] Suc show ?thesis by simp
  qed
qed

lemma result_loop_calls:
  "result_loop res i bms t = Returns t' \<Longrightarrow>
     \<exists>evs. trace t' = trace t @ evs \<and> released evs = map bm_size bms \<and> rpcs evs = []
       \<and> pauses evs = []
       \<and> resolved evs =
           (case res of
              Inl er \<Rightarrow> map (\<lambda>bm. (bm_res bm, [], Some er)) bms
            | Inr ids \<Rightarrow> map (\<lambda>(bm, sid). (bm_res bm, sid, None)) (zip bms (drop i ids)))"
proof (induction bms arbitrary: i t)
  case Nil
  then show ?case by (simp split: sum.splits)
next
  case (Cons bm bms)
  show ?case
  proof (cases res)
    case (Inl er)
    let ?t1 = "SetPublishResult (bm_res bm) [] (Some er) (t_flowController_release (bm_size bm) t)"
    from Cons.prems Inl have "result_loop res (Suc i) bms ?t1 = Returns t'"
      by (simp add: Let_def)
    from Cons.IH [OF this] Inl obtain evs where
      "trace t' = trace ?t1 @ evs" "released evs = map bm_size bms" "rpcs evs = []"
      "pauses evs = []" "resolved evs = map (\<lambda>bm. (bm_res bm, [], Some er)) bms"
      by auto
    with Inl show ?thesis
      by (simp add: t_flowController_release_def SetPublishResult_def)
  next
    case (Inr ids)
    let ?t1 = "SetPublishResult (bm_res bm) (ids ! i) None (t_flowController_release (bm_size bm) t)"
    from Cons.prems Inr have i: "i < length ids" and "result_loop res (Suc i) bms ?t1 = Returns t'"
      by (simp_all add: Let_def split: if_splits)
    from Cons.IH [OF this(2)] Inr obtain evs where
      "trace t' = trace ?t1 @ evs" "released evs = map bm_size bms" "rpcs evs = []"
      "pauses evs = []"
      "resolved evs = map (\<lambda>(bm, sid). (bm_res bm, sid, None)) (zip bms (drop (Suc i) ids))"
      by auto
    with Inr i show ?thesis
      by (simp add: t_flowController_release_def SetPublishResult_def Cons_nth_drop_Suc [symmetric])
  qed
qed

subsection \<open>The scheduler\<close>

lemma IsPaused_Pause: "k \<noteq> [] \<Longrightarrow> IsPaused (Pause s k) k"
  by (simp add: IsPaused_def Pause_def)

lemma keysWithErrors_Pause: "keysWithErrors s \<subseteq> keysWithErrors (Pause s k)"
  by (auto simp add: Pause_def)

lemma Add_paused: "IsPaused s k \<Longrightarrow> Add s k item sz = (Some (ErrPublishingPaused k), s)"
  by (simp add: Add_def)

lemma Add_keysWithErrors: "Add s k item sz = (err, s') \<Longrightarrow> keysWithErrors s' = keysWithErrors s"
  by (auto simp add: Add_def split: if_splits)

lemma Add_error_same: "Add s k item sz = (Some er, s') \<Longrightarrow> s' = s"
  by (auto simp add: Add_def split: if_splits)

lemma buffer_update:
  "buffer (s\<lparr>bundlers := AList.update k v (bundlers s)\<rparr>) k' = (if k' = k then v else buffer s k')"
  by (simp add: buffer_def update_conv')

lemma buffer_Pause: "buffer (Pause s k) = buffer s"
  by (rule ext) (simp add: buffer_def Pause_def)

lemma buffer_Resume: "buffer (Resume s k) = buffer s"
  by (rule ext) (simp add: buffer_def Resume_def)

lemma Add_buffer:
  "Add s k item sz = (None, s') \<Longrightarrow>
     buffer s' k' = (if k' = k then buffer s k @ [item] else buffer s k')"
  by (auto simp add: Add_def buffer_update split: if_splits)

subsection \<open>One bundle\<close>

lemma pmb_paused:
  assumes "scheduler t = Some s" "bundle_key bms \<noteq> []" "IsPaused s (bundle_key bms)"
  shows "publishMessageBundle e bms t =
     result_loop (Inl (ErrPublishingPaused (bundle_key bms))) 0 bms
       (t\<lparr>scheduler := Some (Pause s (bundle_key bms)), trace := trace t @ [EvPause (bundle_key bms)]\<rparr>)"
  using assms
  by (simp add: publishMessageBundle_def encode_loop_init [of e bms t] t_scheduler_IsPaused_def
      t_scheduler_Pause_def)

lemma pmb_rpc_error:
  assumes "scheduler t = Some s" "bundle_key bms = [] \<or> \<not> IsPaused s (bundle_key bms)"
    and "pubc_Publish e (trace t) (bundle_request t bms)
           (shouldCompress (PublishSettings t) (batch_size e bms)) = Inl er"
  shows "publishMessageBundle e bms t =
     result_loop (Inl er) 0 bms
       (t\<lparr>scheduler := Some (Pause s (bundle_key bms)),
          trace := trace t @ [EvPublishRPC (bundle_request t bms)
                     (shouldCompress (PublishSettings t) (batch_size e bms)), EvPause (bundle_key bms)]\<rparr>)"
  using assms
  by (auto simp add: publishMessageBundle_def encode_loop_init [of e bms t] t_scheduler_IsPaused_def
      t_scheduler_Pause_def t_pubc_Publish_def bundle_request_def)

lemma pmb_rpc_ok:
  assumes "scheduler t = Some s" "bundle_key bms = [] \<or> \<not> IsPaused s (bundle_key bms)"
    and "pubc_Publish e (trace t) (bundle_request t bms)
           (shouldCompress (PublishSettings t) (batch_size e bms)) = Inr ids"
  shows "publishMessageBundle e bms t =
     result_loop (Inr ids) 0 bms
       (t\<lparr>trace := trace t @ [EvPublishRPC (bundle_request t bms)
                     (shouldCompress (PublishSettings t) (batch_size e bms))]\<rparr>)"
  using assms
  by (auto simp add: publishMessageBundle_def encode_loop_init [of e bms t] t_scheduler_IsPaused_def
      t_scheduler_Pause_def t_pubc_Publish_def bundle_request_def)

lemma pmb_cases:
  assumes sched: "scheduler t = Some s"
  obtains
    (paused) "bundle_key bms \<noteq> []" "IsPaused s (bundle_key bms)"
      "publishMessageBundle e bms t =
         result_loop (Inl (ErrPublishingPaused (bundle_key bms))) 0 bms
           (t\<lparr>scheduler := Some (Pause s (bundle_key bms)), trace := trace t @ [EvPause (bundle_key bms)]\<rparr>)"
  | (rpc_error) er where "bundle_key bms = [] \<or> \<not> IsPaused s (bundle_key bms)"
      "pubc_Publish e (trace t) (bundle_request t bms)
         (shouldCompress (PublishSettings t) (batch_size e bms)) = Inl er"
      "publishMessageBundle e bms t =
         result_loop (Inl er) 0 bms
           (t\<lparr>scheduler := Some (Pause s (bundle_key bms)),
              trace := trace t @ [EvPublishRPC (bundle_request t bms)
                     (shouldCompress (PublishSettings t) (batch_size e bms)), EvPause (bundle_key bms)]\<rparr>)"
  | (rpc_ok) ids where "bundle_key bms = [] \<or> \<not> IsPaused s (bundle_key bms)"
      "pubc_Publish e (trace t) (bundle_request t bms)
         (shouldCompress (PublishSettings t) (batch_size e bms)) = Inr ids"
      "publishMessageBundle e bms t =
         result_loop (Inr ids) 0 bms
           (t\<lparr>trace := trace t @ [EvPublishRPC (bundle_request t bms)
                     (shouldCompress (PublishSettings t) (batch_size e bms))]\<rparr>)"
proof (cases "bundle_key bms \<noteq> [] \<and> IsPaused s (bundle_key bms)")
  case True
  with pmb_paused [OF sched, of bms e] paused show ?thesis by blast
next
  case False
  then have np: "bundle_key bms = [] \<or> \<not> IsPaused s (bundle_key bms)" by blast
  show ?thesis
  proof (cases "pubc_Publish e (trace t) (bundle_request t bms)
         (shouldCompress (PublishSettings t) (batch_size e bms))")
    case (Inl er)
    from rpc_error [OF np Inl pmb_rpc_error [OF sched np Inl]] show ?thesis .
  next
    case (Inr ids)
    from rpc_ok [OF np Inr pmb_rpc_ok [OF sched np Inr]] show ?thesis .
  qed
qed

text \<open>What one bundle leaves unchanged, whatever the state of the scheduler.\<close>

lemma pmb_frame:
  assumes "publishMessageBundle e bms t = Returns t'"
  shows "stopped t' = stopped t \<and> allocated t' = allocated t \<and> name t' = name t
     \<and> EnableMessageOrdering t' = EnableMessageOrdering t
     \<and> PublishSettings t' = PublishSettings t
     \<and> (case scheduler t of
           None \<Rightarrow> scheduler t' = None
         | Some s \<Rightarrow> scheduler t' = Some s \<or> scheduler t' = Some (Pause s (bundle_key bms)))"
proof (cases "scheduler t")
  case None
  from assms show ?thesis
    unfolding publishMessageBundle_def encode_loop_init [of e bms t]
    by (auto simp add: None obind_Returns_iff t_scheduler_IsPaused_def t_scheduler_Pause_def
        t_pubc_Publish_def split: if_splits sum.splits dest!: result_loop_frame)
next
  case (Some s)
  show ?thesis
  proof (rule pmb_cases [OF Some, of bms e], goal_cases)
    case 1
    with assms result_loop_frame [of "Inl (ErrPublishingPaused (bundle_key bms))" 0 bms _ t']
    show ?case by (simp add: Some)
  next
    case (2 er)
    with assms result_loop_frame [of "Inl er" 0 bms _ t']
    show ?case by (simp add: Some)
  next
    case (3 ids)
    with assms result_loop_frame [of "Inr ids" 0 bms _ t']
    show ?case by (simp add: Some)
  qed
qed

lemma pmb_paused_outcome:
  assumes "scheduler t = Some s" "bundle_key bms \<noteq> []" "IsPaused s (bundle_key bms)"
  shows "\<exists>t' evs. publishMessageBundle e bms t = Returns t'
     \<and> trace t' = trace t @ evs \<and> rpcs evs = []
     \<and> (\<forall>bm \<in> set bms. results t' (bm_res bm) = Some ([], Some (ErrPublishingPaused (bundle_key bms))))"
proof -
  let ?er = "ErrPublishingPaused (bundle_key bms)"
  let ?t2 = "t\<lparr>scheduler := Some (Pause s (bundle_key bms)), trace := trace t @ [EvPause (bundle_key bms)]\<rparr>"
  obtain t' where run: "result_loop (Inl ?er) 0 bms ?t2 = Returns t'"
    using result_loop_returns_Inl by blast
  from result_loop_calls [OF run] obtain evs where
    evs: "trace t' = trace ?t2 @ evs" "rpcs evs = []" by blast
  have "publishMessageBundle e bms t = Returns t'
     \<and> trace t' = trace t @ (EvPause (bundle_key bms) # evs) \<and> rpcs (EvPause (bundle_key bms) # evs) = []
     \<and> (\<forall>bm \<in> set bms. results t' (bm_res bm) = Some ([], Some ?er))"
    using pmb_paused [OF assms, of e] run evs result_loop_Inl_results [OF run] by simp
  then show ?thesis
    by - (rule exI [of _ t'], rule exI [of _ "EvPause (bundle_key bms) # evs"], assumption)
qed

subsection \<open>The small configuration\<close>

lemma ex_publisher_scheduler: "scheduler (ex_publisher n) = Some (ex_scheduler n)"
  by (simp add: ex_publisher_def ex_scheduler_def initBundler_def newPublisher_def Let_def
      NewPublishScheduler_def DefaultPublishSettings_def MaxPublishRequestCount_def
      MaxPublishRequestBytes_def ex_env_def)

lemma ex_publisher_fields:
  "name (ex_publisher n) = n" "trace (ex_publisher n) = []" "\<not> stopped (ex_publisher n)"
  "EnableMessageOrdering (ex_publisher n)" "allocated (ex_publisher n) = 0"
  "EnableCompression (PublishSettings (ex_publisher n)) = False"
  "CompressionBytesThreshold (PublishSettings (ex_publisher n)) = 240"
  by (simp_all add: ex_publisher_def initBundler_def newPublisher_def Let_def
      DefaultPublishSettings_def)

lemma ex_bundle_key: "bundle_key ex_bundle = ''k''"
  by (simp add: bundle_key_def ex_bundle_def)

lemma ex_compressing_fields:
  "scheduler ex_compressing = Some (ex_scheduler ''up'')"
  "name ex_compressing = ''up''" "trace ex_compressing = []"
  "EnableCompression (PublishSettings ex_compressing)"
  "CompressionBytesThreshold (PublishSettings ex_compressing) = 5"
  by (simp_all add: ex_compressing_def ex_scheduler_def initBundler_def newPublisher_def Let_def
      NewPublishScheduler_def DefaultPublishSettings_def MaxPublishRequestCount_def
      MaxPublishRequestBytes_def ex_env_def)

lemma ex_rpc_up:
  "pubc_Publish ex_env tr \<lparr>Topic = ''up'', Messages = ms\<rparr> gz = Inr [''101'', ''102'']"
  by (simp add: ex_env_def)

lemma ex_rpc_down:
  "pubc_Publish ex_env tr \<lparr>Topic = ''down'', Messages = ms\<rparr> gz = Inl (ErrRPC ''unavailable'')"
  by (simp add: ex_env_def)

lemma ex_limited_fields:
  "EnableMessageOrdering ex_limited" "\<not> stopped ex_limited" "allocated ex_limited = 0"
  "trace ex_limited = []"
  "scheduler (initBundler ex_env ex_limited) = Some ((ex_scheduler ''up'')\<lparr>BufferedByteLimit_sch := maxInt\<rparr>)"
  "flowController (initBundler ex_env ex_limited) =
     \<lparr>fc_settings = \<lparr>MaxOutstandingMessages = 1000, MaxOutstandingBytes = 1,
                      LimitExceededBehavior = FlowControlSignalError\<rparr>,
      outstandingCount = 0, outstandingBytes = 0\<rparr>"
  by (simp_all add: ex_limited_def ex_scheduler_def initBundler_def newPublisher_def Let_def
      NewPublishScheduler_def DefaultPublishSettings_def MaxPublishRequestCount_def
      MaxPublishRequestBytes_def ex_env_def newTopicFlowController_def maxInt_def intSize_def)

lemma ex_paused_fields:
  "scheduler ex_paused = Some (Pause (ex_scheduler ''up'') ''k'')"
  "EnableMessageOrdering ex_paused" "\<not> stopped ex_paused" "allocated ex_paused = 0"
  "trace ex_paused = []"
  "LimitExceededBehavior (fc_settings (flowController ex_paused)) = FlowControlIgnore"
  by (simp_all add: ex_paused_def ex_publisher_fields)
    (simp add: ex_publisher_def initBundler_def newPublisher_def Let_def
      DefaultPublishSettings_def newTopicFlowController_def)

lemma ex_flushed_fields:
  "EnableMessageOrdering ex_flushed" "allocated ex_flushed = 0" "trace ex_flushed = []"
  "stopped ex_flushed" "scheduler ex_flushed = Some ((ex_scheduler ''up'')\<lparr>stopped_sch := True\<rparr>)"
  by (simp_all add: ex_flushed_def ex_publisher_fields)

lemma ex_Stop: "Stop ex_env (ex_publisher ''up'') = Returns ex_flushed"
  by (simp add: Stop_def Let_def ex_publisher_fields ex_publisher_scheduler
      t_scheduler_FlushAndStop_def t_scheduler_Flush_def ex_scheduler_def ex_flushed_def)

subsection \<open>Bundles that fail\<close>

text \<open>
  Claim C1. Take a bundle handled by \<^verbatim>\<open>publishMessageBundle\<close> on a publisher whose
  scheduler is set, and let the attempt end with the error \<open>er\<close>: either the bundle's
  ordering key is paused and \<open>er\<close> is the publishing-paused error of that key (no RPC is
  made), or the key is not paused and the Publish RPC ends with \<open>er\<close>. Then the call
  returns; every handle of the bundle is resolved with the empty identifier and \<open>er\<close>,
  and these are the only resolutions made; \<^verbatim>\<open>Pause\<close> is called exactly once, on the
  bundle's ordering key, so that the scheduler afterwards is the one before with that key
  paused; if the key is not empty it is paused afterwards.
\<close>

theorem publishMessageBundle_failure:
  assumes sched: "scheduler t = Some s"
    and fails:
      "(bundle_key bms \<noteq> [] \<and> IsPaused s (bundle_key bms)
          \<and> er = ErrPublishingPaused (bundle_key bms))
       \<or> ((bundle_key bms = [] \<or> \<not> IsPaused s (bundle_key bms))
          \<and> pubc_Publish e (trace t) (bundle_request t bms)
               (shouldCompress (PublishSettings t) (batch_size e bms)) = Inl er)"
  shows "\<exists>t' evs.
      publishMessageBundle e bms t = Returns t'
      \<and> (\<forall>bm \<in> set bms. results t' (bm_res bm) = Some ([], Some er))
      \<and> trace t' = trace t @ evs
      \<and> resolved evs = map (\<lambda>bm. (bm_res bm, [], Some er)) bms
      \<and> pauses evs = [bundle_key bms]
      \<and> scheduler t' = Some (Pause s (bundle_key bms))
      \<and> (bundle_key bms \<noteq> [] \<longrightarrow> IsPaused (Pause s (bundle_key bms)) (bundle_key bms))"
proof -
  define gz where "gz = shouldCompress (PublishSettings t) (batch_size e bms)"
  define pre where "pre =
    (if bundle_key bms \<noteq> [] \<and> IsPaused s (bundle_key bms) then []
     else [EvPublishRPC (bundle_request t bms) gz])"
  define t2 where "t2 = t\<lparr>scheduler := Some (Pause s (bundle_key bms)),
                          trace := trace t @ pre @ [EvPause (bundle_key bms)]\<rparr>"
  have eq: "publishMessageBundle e bms t = result_loop (Inl er) 0 bms t2"
  proof (cases "bundle_key bms \<noteq> [] \<and> IsPaused s (bundle_key bms)")
    case True
    with fails have "er = ErrPublishingPaused (bundle_key bms)" by blast
    with True pmb_paused [OF sched, of bms e] show ?thesis
      by (simp add: t2_def pre_def)
  next
    case False
    with fails have np: "bundle_key bms = [] \<or> \<not> IsPaused s (bundle_key bms)"
      and "pubc_Publish e (trace t) (bundle_request t bms)
             (shouldCompress (PublishSettings t) (batch_size e bms)) = Inl er"
      by blast+
    from pmb_rpc_error [OF sched this] have
      "publishMessageBundle e bms t = result_loop (Inl er) 0 bms
         (t\<lparr>scheduler := Some (Pause s (bundle_key bms)),
            trace := trace t @ [EvPublishRPC (bundle_request t bms) gz, EvPause (bundle_key bms)]\<rparr>)"
      by (simp add: gz_def)
    moreover from False have "pre = [EvPublishRPC (bundle_request t bms) gz]"
      by (simp add: pre_def)
    ultimately show ?thesis
      by (simp add: t2_def)
  qed
  obtain t' where run: "result_loop (Inl er) 0 bms t2 = Returns t'"
    using result_loop_returns_Inl by blast
  from result_loop_calls [OF run] obtain evs where evs:
    "trace t' = trace t2 @ evs" "pauses evs = []"
    "resolved evs = map (\<lambda>bm. (bm_res bm, [], Some er)) bms"
    by auto
  have tr: "trace t' = trace t @ (pre @ [EvPause (bundle_key bms)] @ evs)"
    using evs(1) by (simp add: t2_def)
  have rs: "resolved (pre @ [EvPause (bundle_key bms)] @ evs) = map (\<lambda>bm. (bm_res bm, [], Some er)) bms"
    using evs(3) by (simp add: pre_def)
  have ps: "pauses (pre @ [EvPause (bundle_key bms)] @ evs) = [bundle_key bms]"
    using evs(2) by (simp add: pre_def)
  have vals: "\<forall>bm \<in> set bms. results t' (bm_res bm) = Some ([], Some er)"
    using result_loop_Inl_results [OF run] by blast
  have sch: "scheduler t' = Some (Pause s (bundle_key bms))"
    using result_loop_frame [OF run] by (simp add: t2_def)
  have ret: "publishMessageBundle e bms t = Returns t'"
    using eq run by simp
  have "publishMessageBundle e bms t = Returns t'
      \<and> (\<forall>bm \<in> set bms. results t' (bm_res bm) = Some ([], Some er))
      \<and> trace t' = trace t @ (pre @ [EvPause (bundle_key bms)] @ evs)
      \<and> resolved (pre @ [EvPause (bundle_key bms)] @ evs) = map (\<lambda>bm. (bm_res bm, [], Some er)) bms
      \<and> pauses (pre @ [EvPause (bundle_key bms)] @ evs) = [bundle_key bms]
      \<and> scheduler t' = Some (Pause s (bundle_key bms))
      \<and> (bundle_key bms \<noteq> [] \<longrightarrow> IsPaused (Pause s (bundle_key bms)) (bundle_key bms))"
    using ret vals tr rs ps sch IsPaused_Pause by simp
  then show ?thesis
    by - (rule exI [of _ t'], rule exI [of _ "pre @ [EvPause (bundle_key bms)] @ evs"], assumption)
qed

theorem publishMessageBundle_failure_witness:
  "scheduler (ex_publisher ''down'') = Some (ex_scheduler ''down'')
   \<and> \<not> IsPaused (ex_scheduler ''down'') (bundle_key ex_bundle)
   \<and> pubc_Publish ex_env (trace (ex_publisher ''down'')) (bundle_request (ex_publisher ''down'') ex_bundle)
        (shouldCompress (PublishSettings (ex_publisher ''down'')) (batch_size ex_env ex_bundle))
      = Inl (ErrRPC ''unavailable'')
   \<and> (\<exists>t'. publishMessageBundle ex_env ex_bundle (ex_publisher ''down'') = Returns t'
         \<and> results t' 0 = Some ([], Some (ErrRPC ''unavailable''))
         \<and> results t' 1 = Some ([], Some (ErrRPC ''unavailable''))
         \<and> scheduler t' = Some (Pause (ex_scheduler ''down'') ''k'')
         \<and> IsPaused (Pause (ex_scheduler ''down'') ''k'') ''k'')"
proof -
  have h1: "scheduler (ex_publisher ''down'') = Some (ex_scheduler ''down'')"
    by (rule ex_publisher_scheduler)
  have h2: "\<not> IsPaused (ex_scheduler ''down'') (bundle_key ex_bundle)"
    by (simp add: IsPaused_def ex_scheduler_def)
  have h3: "pubc_Publish ex_env (trace (ex_publisher ''down''))
        (bundle_request (ex_publisher ''down'') ex_bundle)
        (shouldCompress (PublishSettings (ex_publisher ''down'')) (batch_size ex_env ex_bundle))
      = Inl (ErrRPC ''unavailable'')"
    by (simp add: ex_env_def bundle_request_def ex_publisher_fields)
  from publishMessageBundle_failure [OF h1, of ex_bundle "ErrRPC ''unavailable''" ex_env] h2 h3
  obtain t' where "publishMessageBundle ex_env ex_bundle (ex_publisher ''down'') = Returns t'"
    "\<forall>bm \<in> set ex_bundle. results t' (bm_res bm) = Some ([], Some (ErrRPC ''unavailable''))"
    "scheduler t' = Some (Pause (ex_scheduler ''down'') (bundle_key ex_bundle))"
    "bundle_key ex_bundle \<noteq> [] \<longrightarrow>
       IsPaused (Pause (ex_scheduler ''down'') (bundle_key ex_bundle)) (bundle_key ex_bundle)"
    by blast
  then have "publishMessageBundle ex_env ex_bundle (ex_publisher ''down'') = Returns t'
         \<and> results t' 0 = Some ([], Some (ErrRPC ''unavailable''))
         \<and> results t' 1 = Some ([], Some (ErrRPC ''unavailable''))
         \<and> scheduler t' = Some (Pause (ex_scheduler ''down'') ''k'')
         \<and> IsPaused (Pause (ex_scheduler ''down'') ''k'') ''k''"
    by (simp add: ex_bundle_key) (simp add: ex_bundle_def)
  with h1 h2 h3 show ?thesis by blast
qed

subsection \<open>Release of flow-control capacity\<close>

text \<open>
  Claim C2. Take a bundle handled by \<^verbatim>\<open>publishMessageBundle\<close> on a publisher whose
  scheduler is set, and let the RPC keep its contract: a successful response carries an
  identifier for every message of the bundle. Then the pipeline step returns, and in
  the calls it made (the log it appended) the flow controller's \<^verbatim>\<open>release\<close> was called
  exactly once per message of the bundle, with that message's size, in bundle order:
  whether the RPC succeeded, the RPC failed or the key was paused. The flow controller's
  state afterwards is the one before with these releases applied. The size is the one
  \<^verbatim>\<open>Publish\<close> acquired for the message: \<^verbatim>\<open>Publish\<close> passes the same \<^verbatim>\<open>msgSize\<close> to
  \<^verbatim>\<open>acquire\<close> and into the \<^verbatim>\<open>bundledMessage\<close>.
\<close>

theorem publishMessageBundle_releases:
  assumes sched: "scheduler t = Some s"
    and contract:
      "\<forall>ids. pubc_Publish e (trace t) (bundle_request t bms)
               (shouldCompress (PublishSettings t) (batch_size e bms)) = Inr ids
             \<longrightarrow> length bms \<le> length ids"
  shows "\<exists>t' evs.
      publishMessageBundle e bms t = Returns t'
      \<and> trace t' = trace t @ evs
      \<and> released evs = map bm_size bms
      \<and> flowController t' = foldl release (flowController t) (map bm_size bms)"
proof -
  define gz where "gz = shouldCompress (PublishSettings t) (batch_size e bms)"
  have "\<exists>res pre t2. publishMessageBundle e bms t = result_loop res 0 bms t2
          \<and> trace t2 = trace t @ pre \<and> released pre = []
          \<and> flowController t2 = flowController t
          \<and> (\<forall>ids. res = Inr ids \<longrightarrow> length bms \<le> length ids)"
  proof (cases "bundle_key bms \<noteq> [] \<and> IsPaused s (bundle_key bms)")
    case True
    let ?t2 = "t\<lparr>scheduler := Some (Pause s (bundle_key bms)),
                  trace := trace t @ [EvPause (bundle_key bms)]\<rparr>"
    have "publishMessageBundle e bms t
            = result_loop (Inl (ErrPublishingPaused (bundle_key bms))) 0 bms ?t2"
      using True pmb_paused [OF sched, of bms e] by simp
    moreover have "trace ?t2 = trace t @ [EvPause (bundle_key bms)]"
      "released [EvPause (bundle_key bms)] = []" "flowController ?t2 = flowController t"
      by simp_all
    ultimately show ?thesis by blast
  next
    case False
    then have np: "bundle_key bms = [] \<or> \<not> IsPaused s (bundle_key bms)" by blast
    show ?thesis
    proof (cases "pubc_Publish e (trace t) (bundle_request t bms) gz")
      case (Inl er)
      let ?pre = "[EvPublishRPC (bundle_request t bms) gz, EvPause (bundle_key bms)]"
      let ?t2 = "t\<lparr>scheduler := Some (Pause s (bundle_key bms)), trace := trace t @ ?pre\<rparr>"
      have "publishMessageBundle e bms t = result_loop (Inl er) 0 bms ?t2"
        using Inl pmb_rpc_error [OF sched np, of e er] by (simp add: gz_def)
      moreover have "trace ?t2 = trace t @ ?pre" "released ?pre = []"
        "flowController ?t2 = flowController t"
        by simp_all
      ultimately show ?thesis by blast
    next
      case (Inr ids)
      let ?pre = "[EvPublishRPC (bundle_request t bms) gz]"
      let ?t2 = "t\<lparr>trace := trace t @ ?pre\<rparr>"
      have "publishMessageBundle e bms t = result_loop (Inr ids) 0 bms ?t2"
        using Inr pmb_rpc_ok [OF sched np, of e ids] by (simp add: gz_def)
      moreover have "trace ?t2 = trace t @ ?pre" "released ?pre = []"
        "flowController ?t2 = flowController t"
        by simp_all
      moreover have "\<forall>ids'. (Inr ids :: error + string list) = Inr ids' \<longrightarrow> length bms \<le> length ids'"
        using contract Inr by (simp add: gz_def)
      ultimately show ?thesis by blast
    qed
  qed
  then obtain res pre t2 where eq: "publishMessageBundle e bms t = result_loop res 0 bms t2"
    and t2: "trace t2 = trace t @ pre" "released pre = []" "flowController t2 = flowController t"
    and len: "\<forall>ids. res = Inr ids \<longrightarrow> length bms \<le> length ids"
    by blast
  obtain t' where run: "result_loop res 0 bms t2 = Returns t'"
  proof (cases res)
    case (Inl er)
    with result_loop_returns_Inl [of er 0 bms t2] that show ?thesis by blast
  next
    case (Inr ids)
    with len result_loop_returns_Inr [of 0 bms ids t2] that show ?thesis by auto
  qed
  from result_loop_calls [OF run] obtain evs where
    "trace t' = trace t2 @ evs" "released evs = map bm_size bms" by blast
  with t2 have "trace t' = trace t @ (pre @ evs)" "released (pre @ evs) = map bm_size bms"
    by simp_all
  moreover from result_loop_frame [OF run] t2
  have "flowController t' = foldl release (flowController t) (map bm_size bms)" by simp
  ultimately have "publishMessageBundle e bms t = Returns t'
      \<and> trace t' = trace t @ (pre @ evs)
      \<and> released (pre @ evs) = map bm_size bms
      \<and> flowController t' = foldl release (flowController t) (map bm_size bms)"
    using eq run by simp
  then show ?thesis
    by - (rule exI [of _ t'], rule exI [of _ "pre @ evs"], assumption)
qed

theorem publishMessageBundle_releases_witness:
  "scheduler (ex_publisher ''up'') = Some (ex_scheduler ''up'')
   \<and> pubc_Publish ex_env (trace (ex_publisher ''up'')) (bundle_request (ex_publisher ''up'') ex_bundle)
        (shouldCompress (PublishSettings (ex_publisher ''up'')) (batch_size ex_env ex_bundle))
      = Inr [''101'', ''102'']
   \<and> length ex_bundle \<le> length [''101'', ''102'']
   \<and> (\<exists>t' evs. publishMessageBundle ex_env ex_bundle (ex_publisher ''up'') = Returns t'
         \<and> trace t' = trace (ex_publisher ''up'') @ evs
         \<and> released evs = [5, 3])"
proof -
  have h1: "scheduler (ex_publisher ''up'') = Some (ex_scheduler ''up'')"
    by (rule ex_publisher_scheduler)
  have h2: "pubc_Publish ex_env (trace (ex_publisher ''up'')) (bundle_request (ex_publisher ''up'') ex_bundle)
        (shouldCompress (PublishSettings (ex_publisher ''up'')) (batch_size ex_env ex_bundle))
      = Inr [''101'', ''102'']"
    by (simp add: bundle_request_def ex_publisher_fields ex_rpc_up)
  have h3: "length ex_bundle \<le> length [''101'', ''102'']"
    by (simp add: ex_bundle_def)
  have "\<exists>t' evs. publishMessageBundle ex_env ex_bundle (ex_publisher ''up'') = Returns t'
         \<and> trace t' = trace (ex_publisher ''up'') @ evs
         \<and> released evs = map bm_size ex_bundle
         \<and> flowController t' = foldl release (flowController (ex_publisher ''up'')) (map bm_size ex_bundle)"
    using publishMessageBundle_releases [OF h1, of ex_env ex_bundle] h2 h3 by simp
  then have "\<exists>t' evs. publishMessageBundle ex_env ex_bundle (ex_publisher ''up'') = Returns t'
         \<and> trace t' = trace (ex_publisher ''up'') @ evs
         \<and> released evs = [5, 3]"
    by (simp add: ex_bundle_def) blast
  with h1 h2 h3 show ?thesis by blast
qed

subsection \<open>Bundles that succeed\<close>

text \<open>
  Claim C4. Take a bundle handled by \<^verbatim>\<open>publishMessageBundle\<close> on a publisher whose
  scheduler is set, with a key that is not paused, and let the Publish RPC succeed with
  the identifiers \<open>ids\<close>, one at least for every message. Then the call returns; it sent one
  request, which lists the messages in bundle order; the handles were resolved in bundle
  order, the handle of the \<open>i\<close>-th message with the \<open>i\<close>-th identifier and a nil error; no
  key was paused; and when the handles of the bundle are distinct (each \<^verbatim>\<open>Publish\<close> call
  creates its own: lemma \<open>reachable_bundle_distinct\<close>), the store afterwards holds the
  \<open>i\<close>-th identifier and no error at the handle of the \<open>i\<close>-th message. Since a partition
  keeps its items in the order they were added (lemma \<open>Publish_admitted_buffer\<close>),
  messages of one ordering key get their identifiers in submission order.
\<close>

theorem publishMessageBundle_success:
  assumes sched: "scheduler t = Some s"
    and active: "bundle_key bms = [] \<or> \<not> IsPaused s (bundle_key bms)"
    and ok: "pubc_Publish e (trace t) (bundle_request t bms)
               (shouldCompress (PublishSettings t) (batch_size e bms)) = Inr ids"
    and len: "length bms \<le> length ids"
  shows "\<exists>t' evs.
      publishMessageBundle e bms t = Returns t'
      \<and> trace t' = trace t @ evs
      \<and> map fst (rpcs evs) = [\<lparr>Topic = name t, Messages = map (\<lambda>bm. toPb (bm_msg bm)) bms\<rparr>]
      \<and> resolved evs = map (\<lambda>(bm, sid). (bm_res bm, sid, None)) (zip bms ids)
      \<and> pauses evs = []
      \<and> (distinct (map bm_res bms) \<longrightarrow>
            (\<forall>i < length bms. results t' (bm_res (bms ! i)) = Some (ids ! i, None)))"
proof -
  define gz where "gz = shouldCompress (PublishSettings t) (batch_size e bms)"
  define t2 where "t2 = t\<lparr>trace := trace t @ [EvPublishRPC (bundle_request t bms) gz]\<rparr>"
  have eq: "publishMessageBundle e bms t = result_loop (Inr ids) 0 bms t2"
    using pmb_rpc_ok [OF sched active ok] by (simp add: t2_def gz_def)
  obtain t' where run: "result_loop (Inr ids) 0 bms t2 = Returns t'"
    using result_loop_returns_Inr [of 0 bms ids t2] len by auto
  from result_loop_calls [OF run] obtain evs where evs:
    "trace t' = trace t2 @ evs" "rpcs evs = []" "pauses evs = []"
    "resolved evs = map (\<lambda>(bm, sid). (bm_res bm, sid, None)) (zip bms ids)"
    by auto
  let ?evs = "EvPublishRPC (bundle_request t bms) gz # evs"
  have tr: "trace t' = trace t @ ?evs"
    using evs(1) by (simp add: t2_def)
  have rq: "map fst (rpcs ?evs) = [\<lparr>Topic = name t, Messages = map (\<lambda>bm. toPb (bm_msg bm)) bms\<rparr>]"
    using evs(2) by (simp add: bundle_request_def)
  have rs: "resolved ?evs = map (\<lambda>(bm, sid). (bm_res bm, sid, None)) (zip bms ids)"
    using evs(4) by simp
  have ps: "pauses ?evs = []"
    using evs(3) by simp
  have vals: "distinct (map bm_res bms) \<longrightarrow>
            (\<forall>i < length bms. results t' (bm_res (bms ! i)) = Some (ids ! i, None))"
    using result_loop_Inr_results [OF run] by simp
  have "publishMessageBundle e bms t = Returns t'
      \<and> trace t' = trace t @ ?evs
      \<and> map fst (rpcs ?evs) = [\<lparr>Topic = name t, Messages = map (\<lambda>bm. toPb (bm_msg bm)) bms\<rparr>]
      \<and> resolved ?evs = map (\<lambda>(bm, sid). (bm_res bm, sid, None)) (zip bms ids)
      \<and> pauses ?evs = []
      \<and> (distinct (map bm_res bms) \<longrightarrow>
            (\<forall>i < length bms. results t' (bm_res (bms ! i)) = Some (ids ! i, None)))"
    using eq run tr rq rs ps vals by simp
  then show ?thesis
    by - (rule exI [of _ t'], rule exI [of _ ?evs], assumption)
qed

theorem publishMessageBundle_success_witness:
  "scheduler (ex_publisher ''up'') = Some (ex_scheduler ''up'')
   \<and> \<not> IsPaused (ex_scheduler ''up'') (bundle_key ex_bundle)
   \<and> pubc_Publish ex_env (trace (ex_publisher ''up'')) (bundle_request (ex_publisher ''up'') ex_bundle)
        (shouldCompress (PublishSettings (ex_publisher ''up'')) (batch_size ex_env ex_bundle))
      = Inr [''101'', ''102'']
   \<and> length ex_bundle \<le> length [''101'', ''102'']
   \<and> distinct (map bm_res ex_bundle)
   \<and> (\<exists>t' evs. publishMessageBundle ex_env ex_bundle (ex_publisher ''up'') = Returns t'
         \<and> trace t' = trace (ex_publisher ''up'') @ evs
         \<and> resolved evs = [(0, ''101'', None), (1, ''102'', None)]
         \<and> results t' 0 = Some (''101'', None)
         \<and> results t' 1 = Some (''102'', None))"
proof -
  have h1: "scheduler (ex_publisher ''up'') = Some (ex_scheduler ''up'')"
    by (rule ex_publisher_scheduler)
  have h2: "\<not> IsPaused (ex_scheduler ''up'') (bundle_key ex_bundle)"
    by (simp add: IsPaused_def ex_scheduler_def)
  have h3: "pubc_Publish ex_env (trace (ex_publisher ''up'')) (bundle_request (ex_publisher ''up'') ex_bundle)
        (shouldCompress (PublishSettings (ex_publisher ''up'')) (batch_size ex_env ex_bundle))
      = Inr [''101'', ''102'']"
    by (simp add: bundle_request_def ex_publisher_fields ex_rpc_up)
  have h4: "length ex_bundle \<le> length [''101'', ''102'']"
    by (simp add: ex_bundle_def)
  have h5: "distinct (map bm_res ex_bundle)"
    by (simp add: ex_bundle_def)
  from publishMessageBundle_success [OF h1 _ h3 h4] h2 h5
  obtain t' evs where t': "publishMessageBundle ex_env ex_bundle (ex_publisher ''up'') = Returns t'"
    "trace t' = trace (ex_publisher ''up'') @ evs"
    "resolved evs = map (\<lambda>(bm, sid). (bm_res bm, sid, None)) (zip ex_bundle [''101'', ''102''])"
    "\<forall>i < length ex_bundle. results t' (bm_res (ex_bundle ! i)) = Some ([''101'', ''102''] ! i, None)"
    by blast
  from t'(4) [rule_format, of 0] t'(4) [rule_format, of 1]
  have "results t' 0 = Some (''101'', None)" "results t' 1 = Some (''102'', None)"
    by (simp_all add: ex_bundle_def)
  moreover from t'(3) have "resolved evs = [(0, ''101'', None), (1, ''102'', None)]"
    by (simp add: ex_bundle_def)
  ultimately have "\<exists>t' evs. publishMessageBundle ex_env ex_bundle (ex_publisher ''up'') = Returns t'
         \<and> trace t' = trace (ex_publisher ''up'') @ evs
         \<and> resolved evs = [(0, ''101'', None), (1, ''102'', None)]
         \<and> results t' 0 = Some (''101'', None)
         \<and> results t' 1 = Some (''102'', None)"
    using t'(1,2) by blast
  with h1 h2 h3 h4 h5 show ?thesis by blast
qed

subsection \<open>Compression\<close>

text \<open>
  Claim C7. Take a bundle handled by \<^verbatim>\<open>publishMessageBundle\<close> on a publisher whose
  scheduler is set, and let the RPC keep its contract (an identifier for every message on
  success). Then the call returns. If the bundle's key is paused no request is sent.
  Otherwise exactly one request is sent, for this bundle, and gzip compression is
  requested for it if and only if \<^verbatim>\<open>EnableCompression\<close> is set and the sum of the encoded
  sizes of the bundle's messages is strictly greater than \<^verbatim>\<open>CompressionBytesThreshold\<close>.
  The requests logged before are untouched and the publisher's settings are unchanged:
  the option belongs to this request only.
\<close>

theorem publishMessageBundle_compression:
  assumes sched: "scheduler t = Some s"
    and contract:
      "\<forall>ids. pubc_Publish e (trace t) (bundle_request t bms)
               (shouldCompress (PublishSettings t) (batch_size e bms)) = Inr ids
             \<longrightarrow> length bms \<le> length ids"
  shows "\<exists>t' evs.
      publishMessageBundle e bms t = Returns t'
      \<and> trace t' = trace t @ evs
      \<and> rpcs evs =
          (if bundle_key bms \<noteq> [] \<and> IsPaused s (bundle_key bms) then []
           else [(\<lparr>Topic = name t, Messages = map (\<lambda>bm. toPb (bm_msg bm)) bms\<rparr>,
                  EnableCompression (PublishSettings t)
                  \<and> (\<Sum>bm\<leftarrow>bms. proto_Size e (toPb (bm_msg bm))) > CompressionBytesThreshold (PublishSettings t))])
      \<and> PublishSettings t' = PublishSettings t"
proof -
  define req where "req = bundle_request t bms"
  define gz where "gz = shouldCompress (PublishSettings t) (batch_size e bms)"
  have gz: "gz \<longleftrightarrow> EnableCompression (PublishSettings t)
                  \<and> (\<Sum>bm\<leftarrow>bms. proto_Size e (toPb (bm_msg bm))) > CompressionBytesThreshold (PublishSettings t)"
    by (simp add: gz_def shouldCompress_def batch_size_def)
  have req: "req = \<lparr>Topic = name t, Messages = map (\<lambda>bm. toPb (bm_msg bm)) bms\<rparr>"
    by (simp add: req_def bundle_request_def)
  define sent where "sent = (if bundle_key bms \<noteq> [] \<and> IsPaused s (bundle_key bms) then [] else [(req, gz)])"
  have "\<exists>res pre t2. publishMessageBundle e bms t = result_loop res 0 bms t2
          \<and> trace t2 = trace t @ pre \<and> rpcs pre = sent
          \<and> PublishSettings t2 = PublishSettings t
          \<and> (\<forall>ids. res = Inr ids \<longrightarrow> length bms \<le> length ids)"
  proof (rule pmb_cases [OF sched, of bms e], goal_cases)
    case paused: 1
    let ?t2 = "t\<lparr>scheduler := Some (Pause s (bundle_key bms)),
                  trace := trace t @ [EvPause (bundle_key bms)]\<rparr>"
    have "trace ?t2 = trace t @ [EvPause (bundle_key bms)]"
      "rpcs [EvPause (bundle_key bms)] = sent" "PublishSettings ?t2 = PublishSettings t"
      using paused(1,2) by (simp_all add: sent_def)
    with paused(3) show ?thesis by blast
  next
    case rpc_error: (2 er)
    let ?pre = "[EvPublishRPC req gz, EvPause (bundle_key bms)]"
    let ?t2 = "t\<lparr>scheduler := Some (Pause s (bundle_key bms)), trace := trace t @ ?pre\<rparr>"
    have "publishMessageBundle e bms t = result_loop (Inl er) 0 bms ?t2"
      using rpc_error(3) by (simp add: gz_def req_def)
    moreover have "trace ?t2 = trace t @ ?pre" "PublishSettings ?t2 = PublishSettings t"
      by simp_all
    moreover have "rpcs ?pre = sent"
      using rpc_error(1) by (auto simp add: sent_def)
    ultimately show ?thesis by blast
  next
    case rpc_ok: (3 ids)
    let ?pre = "[EvPublishRPC req gz]"
    let ?t2 = "t\<lparr>trace := trace t @ ?pre\<rparr>"
    have "publishMessageBundle e bms t = result_loop (Inr ids) 0 bms ?t2"
      using rpc_ok(3) by (simp add: gz_def req_def)
    moreover have "trace ?t2 = trace t @ ?pre" "PublishSettings ?t2 = PublishSettings t"
      by simp_all
    moreover have "rpcs ?pre = sent"
      using rpc_ok(1) by (auto simp add: sent_def)
    moreover have "\<forall>ids'. (Inr ids :: error + string list) = Inr ids' \<longrightarrow> length bms \<le> length ids'"
      using contract rpc_ok(2) by simp
    ultimately show ?thesis by blast
  qed
  then obtain res pre t2 where eq: "publishMessageBundle e bms t = result_loop res 0 bms t2"
    and t2: "trace t2 = trace t @ pre" "rpcs pre = sent" "PublishSettings t2 = PublishSettings t"
    and len: "\<forall>ids. res = Inr ids \<longrightarrow> length bms \<le> length ids"
    by blast
  obtain t' where run: "result_loop res 0 bms t2 = Returns t'"
  proof (cases res)
    case (Inl er)
    with result_loop_returns_Inl [of er 0 bms t2] that show ?thesis by blast
  next
    case (Inr ids)
    with len result_loop_returns_Inr [of 0 bms ids t2] that show ?thesis by auto
  qed
  from result_loop_calls [OF run] obtain evs where
    "trace t' = trace t2 @ evs" "rpcs evs = []" by blast
  with t2 have "trace t' = trace t @ (pre @ evs)" "rpcs (pre @ evs) = sent"
    by simp_all
  moreover from result_loop_frame [OF run] t2 have "PublishSettings t' = PublishSettings t"
    by simp
  ultimately have "publishMessageBundle e bms t = Returns t'
      \<and> trace t' = trace t @ (pre @ evs)
      \<and> rpcs (pre @ evs) =
          (if bundle_key bms \<noteq> [] \<and> IsPaused s (bundle_key bms) then []
           else [(\<lparr>Topic = name t, Messages = map (\<lambda>bm. toPb (bm_msg bm)) bms\<rparr>,
                  EnableCompression (PublishSettings t)
                  \<and> (\<Sum>bm\<leftarrow>bms. proto_Size e (toPb (bm_msg bm))) > CompressionBytesThreshold (PublishSettings t))])
      \<and> PublishSettings t' = PublishSettings t"
    using eq run gz req by (simp add: sent_def)
  then show ?thesis
    by - (rule exI [of _ t'], rule exI [of _ "pre @ evs"], assumption)
qed

theorem publishMessageBundle_compression_witness:
  "scheduler ex_compressing = Some (ex_scheduler ''up'')
   \<and> pubc_Publish ex_env (trace ex_compressing) (bundle_request ex_compressing ex_bundle)
        (shouldCompress (PublishSettings ex_compressing) (batch_size ex_env ex_bundle))
      = Inr [''101'', ''102'']
   \<and> length ex_bundle \<le> length [''101'', ''102'']
   \<and> (\<exists>t' evs. publishMessageBundle ex_env ex_bundle ex_compressing = Returns t'
         \<and> trace t' = trace ex_compressing @ evs
         \<and> map snd (rpcs evs) = [True]
         \<and> PublishSettings t' = PublishSettings ex_compressing)"
proof -
  have h1: "scheduler ex_compressing = Some (ex_scheduler ''up'')"
    by (rule ex_compressing_fields)
  have h2: "pubc_Publish ex_env (trace ex_compressing) (bundle_request ex_compressing ex_bundle)
        (shouldCompress (PublishSettings ex_compressing) (batch_size ex_env ex_bundle))
      = Inr [''101'', ''102'']"
    by (simp add: bundle_request_def ex_compressing_fields ex_rpc_up)
  have h3: "length ex_bundle \<le> length [''101'', ''102'']"
    by (simp add: ex_bundle_def)
  have np: "\<not> IsPaused (ex_scheduler ''up'') (bundle_key ex_bundle)"
    by (simp add: IsPaused_def ex_scheduler_def)
  have sz: "(\<Sum>bm\<leftarrow>ex_bundle. proto_Size ex_env (toPb (bm_msg bm))) = 8"
    by (simp add: ex_bundle_def ex_env_def toPb_def)
  from publishMessageBundle_compression [OF h1, of ex_env ex_bundle] h2 h3
  obtain t' evs where t': "publishMessageBundle ex_env ex_bundle ex_compressing = Returns t'"
    "trace t' = trace ex_compressing @ evs"
    "rpcs evs =
          (if bundle_key ex_bundle \<noteq> [] \<and> IsPaused (ex_scheduler ''up'') (bundle_key ex_bundle) then []
           else [(\<lparr>Topic = name ex_compressing, Messages = map (\<lambda>bm. toPb (bm_msg bm)) ex_bundle\<rparr>,
                  EnableCompression (PublishSettings ex_compressing)
                  \<and> (\<Sum>bm\<leftarrow>ex_bundle. proto_Size ex_env (toPb (bm_msg bm)))
                      > CompressionBytesThreshold (PublishSettings ex_compressing))])"
    "PublishSettings t' = PublishSettings ex_compressing"
    by auto
  from t'(3) np sz have "map snd (rpcs evs) = [True]"
    by (simp add: ex_compressing_fields)
  with t'(1,2,4) have "\<exists>t' evs. publishMessageBundle ex_env ex_bundle ex_compressing = Returns t'
         \<and> trace t' = trace ex_compressing @ evs
         \<and> map snd (rpcs evs) = [True]
         \<and> PublishSettings t' = PublishSettings ex_compressing"
    by - (rule exI [of _ t'], rule exI [of _ evs], simp)
  with h1 h2 h3 show ?thesis by simp
qed

subsection \<open>What initBundler does\<close>

lemma initBundler_noop: "stopped t \<or> scheduler t \<noteq> None \<Longrightarrow> initBundler e t = t"
  by (simp add: initBundler_def)

lemma initBundler_frame:
  "stopped (initBundler e t) = stopped t"
  "name (initBundler e t) = name t"
  "EnableMessageOrdering (initBundler e t) = EnableMessageOrdering t"
  "results (initBundler e t) = results t"
  "allocated (initBundler e t) = allocated t"
  "trace (initBundler e t) = trace t"
  by (simp_all add: initBundler_def Let_def)

lemma initBundler_scheduler:
  assumes "\<not> stopped t" "scheduler t = None"
  shows "\<exists>s. scheduler (initBundler e t) = Some s
     \<and> BundleByteLimit s = MaxPublishRequestBytes - calcFieldSizeString e (name t) - 5
     \<and> keysWithErrors s = {} \<and> bundlers s = [] \<and> \<not> stopped_sch s"
  using assms by (simp add: initBundler_def Let_def NewPublishScheduler_def)

lemma initBundler_Some: "\<not> stopped t \<Longrightarrow> \<exists>s. scheduler (initBundler e t) = Some s"
proof (cases "scheduler t")
  case None
  assume "\<not> stopped t"
  from initBundler_scheduler [OF this None] show ?thesis by blast
next
  case (Some s)
  then show ?thesis by (simp add: initBundler_noop)
qed

lemma initBundler_alloc:
  "initBundler e (t\<lparr>results := rs, allocated := n\<rparr>) = (initBundler e t)\<lparr>results := rs, allocated := n\<rparr>"
  by (simp add: initBundler_def Let_def)

subsection \<open>The bundle byte limit\<close>

text \<open>
  Claim C8. When \<^verbatim>\<open>initBundler\<close> initialises the scheduler (the publisher is not stopped
  and has no scheduler yet), the scheduler's \<^verbatim>\<open>BundleByteLimit\<close> is exactly
  \<^verbatim>\<open>MaxPublishRequestBytes\<close> minus the encoded size of the topic-name field
  (\<^verbatim>\<open>calcFieldSizeString(t.name)\<close>) minus 5; as an encoded size is not negative, the limit
  is strictly smaller than \<^verbatim>\<open>MaxPublishRequestBytes\<close>, for every topic name.
\<close>

theorem initBundler_BundleByteLimit:
  assumes "\<not> stopped t" and "scheduler t = None" and "0 \<le> calcFieldSizeString e (name t)"
  shows "\<exists>s. scheduler (initBundler e t) = Some s
     \<and> BundleByteLimit s = MaxPublishRequestBytes - calcFieldSizeString e (name t) - 5
     \<and> BundleByteLimit s < MaxPublishRequestBytes"
  using assms by (simp add: initBundler_def Let_def NewPublishScheduler_def)

theorem initBundler_BundleByteLimit_witness:
  "\<not> stopped (newPublisher ''projects/p/topics/t'')
   \<and> scheduler (newPublisher ''projects/p/topics/t'') = None
   \<and> 0 \<le> calcFieldSizeString ex_env (name (newPublisher ''projects/p/topics/t''))
   \<and> (\<exists>s. scheduler (initBundler ex_env (newPublisher ''projects/p/topics/t'')) = Some s
        \<and> BundleByteLimit s = 9999974
        \<and> BundleByteLimit s < MaxPublishRequestBytes)"
proof -
  have h1: "\<not> stopped (newPublisher ''projects/p/topics/t'')"
    and h2: "scheduler (newPublisher ''projects/p/topics/t'') = None"
    and h3: "0 \<le> calcFieldSizeString ex_env (name (newPublisher ''projects/p/topics/t''))"
    by (simp_all add: newPublisher_def ex_env_def)
  have "calcFieldSizeString ex_env (name (newPublisher ''projects/p/topics/t'')) = 21"
    by (simp add: newPublisher_def ex_env_def)
  with initBundler_BundleByteLimit [OF h1 h2 h3]
  have "\<exists>s. scheduler (initBundler ex_env (newPublisher ''projects/p/topics/t'')) = Some s
        \<and> BundleByteLimit s = 9999974
        \<and> BundleByteLimit s < MaxPublishRequestBytes"
    by (simp add: MaxPublishRequestBytes_def)
  with h1 h2 h3 show ?thesis by simp
qed

subsection \<open>The branches of Publish\<close>

lemma Publish_ordering_not_enabled:
  assumes "\<not> EnableMessageOrdering t" "OrderingKey m \<noteq> []"
  shows "Publish e c m t =
     Returns (allocated t,
       t\<lparr>results := (results t)(allocated t \<mapsto> ([], Some ErrTopicOrderingNotEnabled)),
         allocated := Suc (allocated t),
         trace := trace t @ [EvSetPublishResult (allocated t) [] (Some ErrTopicOrderingNotEnabled)]\<rparr>)"
  using assms by (simp add: Publish_def NewPublishResult_def SetPublishResult_def)

lemma Publish_stopped:
  assumes "EnableMessageOrdering t \<or> OrderingKey m = []" "stopped t"
  shows "Publish e c m t =
     Returns (allocated t,
       t\<lparr>results := (results t)(allocated t \<mapsto> ([], Some ErrTopicStopped)),
         allocated := Suc (allocated t),
         trace := trace t @ [EvSetPublishResult (allocated t) [] (Some ErrTopicStopped)]\<rparr>)"
  using assms
  by (auto simp add: Publish_def NewPublishResult_def SetPublishResult_def Let_def initBundler_def)

lemma acquire_not_Panics: "acquire fc c sz \<noteq> Panics"
  by (simp add: acquire_def split: LimitExceededBehavior.splits)

lemma Publish_blocks:
  assumes "EnableMessageOrdering t \<or> OrderingKey m = []" "\<not> stopped t"
    and "acquire (flowController (initBundler e t)) c (proto_Size e (toPb m)) = Blocks"
  shows "Publish e c m t = Blocks"
  using assms
  by (auto simp add: Publish_def NewPublishResult_def SetPublishResult_def Let_def
      initBundler_alloc initBundler_frame t_flowController_acquire_def)

lemma Publish_acquire_error:
  assumes "EnableMessageOrdering t \<or> OrderingKey m = []" "\<not> stopped t"
    and "scheduler (initBundler e t) = Some s"
    and "acquire (flowController (initBundler e t)) c (proto_Size e (toPb m)) = Returns (Some er, fc)"
  shows "\<exists>t'. Publish e c m t = Returns (allocated t, t')
     \<and> trace t' = trace t @ [EvAcquire (proto_Size e (toPb m)), EvPause (OrderingKey m),
                              EvSetPublishResult (allocated t) [] (Some er)]
     \<and> results t' = (results t)(allocated t \<mapsto> ([], Some er))
     \<and> scheduler t' = Some (Pause s (OrderingKey m))
     \<and> flowController t' = fc
     \<and> stopped t' = stopped t \<and> allocated t' = Suc (allocated t)
     \<and> EnableMessageOrdering t' = EnableMessageOrdering t"
  using assms
  by (auto simp add: Publish_def NewPublishResult_def SetPublishResult_def Let_def
      initBundler_alloc initBundler_frame t_flowController_acquire_def t_scheduler_Pause_def)

lemma Publish_Add_error:
  assumes "EnableMessageOrdering t \<or> OrderingKey m = []" "\<not> stopped t"
    and "scheduler (initBundler e t) = Some s"
    and "acquire (flowController (initBundler e t)) c (proto_Size e (toPb m)) = Returns (None, fc)"
    and "Add s (OrderingKey m) \<lparr>bm_msg = m, bm_res = allocated t, bm_size = proto_Size e (toPb m)\<rparr>
           (proto_Size e (toPb m)) = (Some er, s')"
  shows "\<exists>t'. Publish e c m t = Returns (allocated t, t')
     \<and> trace t' = trace t @ [EvAcquire (proto_Size e (toPb m)),
                              EvAdd (OrderingKey m) (allocated t) (proto_Size e (toPb m)),
                              EvPause (OrderingKey m),
                              EvSetPublishResult (allocated t) [] (Some er)]
     \<and> results t' = (results t)(allocated t \<mapsto> ([], Some er))
     \<and> scheduler t' = Some (Pause s' (OrderingKey m))
     \<and> flowController t' = fc
     \<and> stopped t' = stopped t \<and> allocated t' = Suc (allocated t)
     \<and> EnableMessageOrdering t' = EnableMessageOrdering t"
  using assms
  by (auto simp add: Publish_def NewPublishResult_def SetPublishResult_def Let_def
      initBundler_alloc initBundler_frame t_flowController_acquire_def t_scheduler_Pause_def
      t_scheduler_Add_def)

lemma Publish_admitted:
  assumes "EnableMessageOrdering t \<or> OrderingKey m = []" "\<not> stopped t"
    and "scheduler (initBundler e t) = Some s"
    and "acquire (flowController (initBundler e t)) c (proto_Size e (toPb m)) = Returns (None, fc)"
    and "Add s (OrderingKey m) \<lparr>bm_msg = m, bm_res = allocated t, bm_size = proto_Size e (toPb m)\<rparr>
           (proto_Size e (toPb m)) = (None, s')"
  shows "\<exists>t'. Publish e c m t = Returns (allocated t, t')
     \<and> trace t' = trace t @ [EvAcquire (proto_Size e (toPb m)),
                              EvAdd (OrderingKey m) (allocated t) (proto_Size e (toPb m))]
     \<and> results t' = (results t)(allocated t := None)
     \<and> scheduler t' = Some s'
     \<and> flowController t' = fc
     \<and> stopped t' = stopped t \<and> allocated t' = Suc (allocated t)
     \<and> EnableMessageOrdering t' = EnableMessageOrdering t"
  using assms
  by (auto simp add: Publish_def NewPublishResult_def SetPublishResult_def Let_def
      initBundler_alloc initBundler_frame t_flowController_acquire_def t_scheduler_Pause_def
      t_scheduler_Add_def)

text \<open>
  A message that \<^verbatim>\<open>Publish\<close> admits joins the partition of its ordering key behind the
  items already there, with the size that was acquired for it.
\<close>

lemma Publish_admitted_buffer:
  assumes "EnableMessageOrdering t \<or> OrderingKey m = []" "\<not> stopped t"
    and "scheduler (initBundler e t) = Some s"
    and "acquire (flowController (initBundler e t)) c (proto_Size e (toPb m)) = Returns (None, fc)"
    and "Add s (OrderingKey m) \<lparr>bm_msg = m, bm_res = allocated t, bm_size = proto_Size e (toPb m)\<rparr>
           (proto_Size e (toPb m)) = (None, s')"
  shows "\<exists>t'. Publish e c m t = Returns (allocated t, t') \<and> scheduler t' = Some s'
     \<and> buffer s' (OrderingKey m) =
         buffer s (OrderingKey m) @ [\<lparr>bm_msg = m, bm_res = allocated t, bm_size = proto_Size e (toPb m)\<rparr>]
     \<and> acquired (drop (length (trace t)) (trace t')) = [proto_Size e (toPb m)]"
proof -
  from Publish_admitted [OF assms] obtain t' where
    "Publish e c m t = Returns (allocated t, t')" "scheduler t' = Some s'"
    "trace t' = trace t @ [EvAcquire (proto_Size e (toPb m)),
                              EvAdd (OrderingKey m) (allocated t) (proto_Size e (toPb m))]"
    by blast
  with Add_buffer [OF assms(5), of "OrderingKey m"] show ?thesis by simp
qed

subsection \<open>Ordering keys while ordering is disabled\<close>

text \<open>
  Claim C6. When \<^verbatim>\<open>EnableMessageOrdering\<close> is false and the message has a non-empty
  ordering key, \<^verbatim>\<open>Publish\<close> returns a handle that is already resolved with
  \<^verbatim>\<open>errTopicOrderingNotEnabled\<close> (and the empty identifier); this resolution is the only
  one the call makes; the call makes no \<^verbatim>\<open>Add\<close> on the scheduler, and the scheduler, with
  all its bundles, is what it was before.
\<close>

theorem Publish_ordering_key_without_ordering:
  assumes "\<not> EnableMessageOrdering t" and "OrderingKey m \<noteq> []"
  shows "\<exists>t' evs.
      Publish e c m t = Returns (allocated t, t')
      \<and> results t' (allocated t) = Some ([], Some ErrTopicOrderingNotEnabled)
      \<and> trace t' = trace t @ evs
      \<and> adds evs = []
      \<and> resolved evs = [(allocated t, [], Some ErrTopicOrderingNotEnabled)]
      \<and> scheduler t' = scheduler t"
proof -
  let ?ev = "EvSetPublishResult (allocated t) [] (Some ErrTopicOrderingNotEnabled)"
  let ?t' = "t\<lparr>results := (results t)(allocated t \<mapsto> ([], Some ErrTopicOrderingNotEnabled)),
         allocated := Suc (allocated t), trace := trace t @ [?ev]\<rparr>"
  have "Publish e c m t = Returns (allocated t, ?t')
      \<and> results ?t' (allocated t) = Some ([], Some ErrTopicOrderingNotEnabled)
      \<and> trace ?t' = trace t @ [?ev]
      \<and> adds [?ev] = []
      \<and> resolved [?ev] = [(allocated t, [], Some ErrTopicOrderingNotEnabled)]
      \<and> scheduler ?t' = scheduler t"
    using Publish_ordering_not_enabled [OF assms, of e c] by simp
  then show ?thesis
    by - (rule exI [of _ ?t'], rule exI [of _ "[?ev]"], assumption)
qed

theorem Publish_ordering_key_without_ordering_witness:
  "\<not> EnableMessageOrdering (newPublisher ''up'')
   \<and> OrderingKey ex_keyed \<noteq> []
   \<and> (\<exists>t' evs. Publish ex_env CtxLive ex_keyed (newPublisher ''up'') = Returns (0, t')
        \<and> results t' 0 = Some ([], Some ErrTopicOrderingNotEnabled)
        \<and> trace t' = evs
        \<and> adds evs = []
        \<and> scheduler t' = None)"
proof -
  have h1: "\<not> EnableMessageOrdering (newPublisher ''up'')"
    and h2: "OrderingKey ex_keyed \<noteq> []"
    by (simp_all add: newPublisher_def ex_keyed_def)
  have f: "allocated (newPublisher ''up'') = 0" "trace (newPublisher ''up'') = []"
    "scheduler (newPublisher ''up'') = None"
    by (simp_all add: newPublisher_def)
  from Publish_ordering_key_without_ordering [OF h1 h2, of ex_env CtxLive]
  have "\<exists>t' evs. Publish ex_env CtxLive ex_keyed (newPublisher ''up'') = Returns (0, t')
        \<and> results t' 0 = Some ([], Some ErrTopicOrderingNotEnabled)
        \<and> trace t' = evs
        \<and> adds evs = []
        \<and> scheduler t' = None"
    by (auto simp add: f)
  with h1 h2 show ?thesis by simp
qed

text \<open>
  Claim C10. The ordering check comes first. When \<^verbatim>\<open>EnableMessageOrdering\<close> is false and
  the message has a non-empty ordering key, \<^verbatim>\<open>Publish\<close> returns the state it was called
  in, stopped or not, with one more handle, resolved with \<^verbatim>\<open>errTopicOrderingNotEnabled\<close>,
  and one more entry in the log, that resolution. So the handle does not hold the stopped
  error, the flow controller and the scheduler are untouched (a scheduler that was not
  initialised stays so), and the call makes no \<^verbatim>\<open>acquire\<close>, no \<^verbatim>\<open>Add\<close> and no \<^verbatim>\<open>Pause\<close>.
\<close>

theorem Publish_ordering_check_first:
  assumes "\<not> EnableMessageOrdering t" and "OrderingKey m \<noteq> []"
  shows "Publish e c m t =
     Returns (allocated t,
       t\<lparr>results := (results t)(allocated t \<mapsto> ([], Some ErrTopicOrderingNotEnabled)),
         allocated := Suc (allocated t),
         trace := trace t @ [EvSetPublishResult (allocated t) [] (Some ErrTopicOrderingNotEnabled)]\<rparr>)
     \<and> (\<forall>r t'. Publish e c m t = Returns (r, t') \<longrightarrow>
           results t' r = Some ([], Some ErrTopicOrderingNotEnabled)
           \<and> results t' r \<noteq> Some ([], Some ErrTopicStopped)
           \<and> stopped t' = stopped t
           \<and> flowController t' = flowController t
           \<and> scheduler t' = scheduler t
           \<and> acquired (drop (length (trace t)) (trace t')) = []
           \<and> adds (drop (length (trace t)) (trace t')) = []
           \<and> pauses (drop (length (trace t)) (trace t')) = [])"
  using Publish_ordering_not_enabled [OF assms, of e c] by simp

theorem Publish_ordering_check_first_witness:
  "\<not> EnableMessageOrdering ((newPublisher ''up'')\<lparr>stopped := True\<rparr>)
   \<and> OrderingKey ex_keyed \<noteq> []
   \<and> stopped ((newPublisher ''up'')\<lparr>stopped := True\<rparr>)
   \<and> (\<exists>t'. Publish ex_env CtxLive ex_keyed ((newPublisher ''up'')\<lparr>stopped := True\<rparr>) = Returns (0, t')
         \<and> results t' 0 = Some ([], Some ErrTopicOrderingNotEnabled)
         \<and> trace t' = [EvSetPublishResult 0 [] (Some ErrTopicOrderingNotEnabled)]
         \<and> scheduler t' = None)"
proof -
  let ?t = "(newPublisher ''up'')\<lparr>stopped := True\<rparr>"
  have h1: "\<not> EnableMessageOrdering ?t"
    and h2: "OrderingKey ex_keyed \<noteq> []"
    and h3: "stopped ?t"
    by (simp_all add: newPublisher_def ex_keyed_def)
  have f: "allocated ?t = 0" "trace ?t = []" "scheduler ?t = None"
    by (simp_all add: newPublisher_def)
  from Publish_ordering_check_first [OF h1 h2, of ex_env CtxLive]
  have "Publish ex_env CtxLive ex_keyed ?t =
     Returns (allocated ?t,
       ?t\<lparr>results := (results ?t)(allocated ?t \<mapsto> ([], Some ErrTopicOrderingNotEnabled)),
         allocated := Suc (allocated ?t),
         trace := trace ?t @ [EvSetPublishResult (allocated ?t) [] (Some ErrTopicOrderingNotEnabled)]\<rparr>)"
    by blast
  then have "\<exists>t'. Publish ex_env CtxLive ex_keyed ?t = Returns (0, t')
         \<and> results t' 0 = Some ([], Some ErrTopicOrderingNotEnabled)
         \<and> trace t' = [EvSetPublishResult 0 [] (Some ErrTopicOrderingNotEnabled)]
         \<and> scheduler t' = None"
    by (simp add: f newPublisher_def)
  with h1 h2 h3 show ?thesis by simp
qed

subsection \<open>Failures at admission\<close>

text \<open>
  Claim C9. Let \<^verbatim>\<open>Publish\<close> pass the ordering check and the stopped check, and let \<open>s\<close> be
  the scheduler it works with (the one \<^verbatim>\<open>initBundler\<close> leaves). If \<^verbatim>\<open>acquire\<close> returns the
  error \<open>er\<close>, or \<^verbatim>\<open>acquire\<close> succeeds and \<^verbatim>\<open>Add\<close> returns the error \<open>er\<close>, then \<^verbatim>\<open>Publish\<close>
  returns, and the last two calls it made are \<^verbatim>\<open>Pause\<close> on the message's ordering key and
  then the resolution of the handle with \<open>er\<close>; it made no other \<^verbatim>\<open>Pause\<close> and no other
  resolution. The handle holds \<open>er\<close>, and if the ordering key is not empty it is paused in
  the scheduler afterwards.
\<close>

theorem Publish_admission_failure_pauses:
  assumes ord: "EnableMessageOrdering t \<or> OrderingKey m = []"
    and run: "\<not> stopped t"
    and sched: "scheduler (initBundler e t) = Some s"
    and fails:
      "(\<exists>fc. acquire (flowController (initBundler e t)) c (proto_Size e (toPb m)) = Returns (Some er, fc))
       \<or> (\<exists>fc s'. acquire (flowController (initBundler e t)) c (proto_Size e (toPb m)) = Returns (None, fc)
             \<and> Add s (OrderingKey m)
                  \<lparr>bm_msg = m, bm_res = allocated t, bm_size = proto_Size e (toPb m)\<rparr>
                  (proto_Size e (toPb m)) = (Some er, s'))"
  shows "\<exists>t' pre s''.
      Publish e c m t = Returns (allocated t, t')
      \<and> trace t' = trace t @ pre @ [EvPause (OrderingKey m), EvSetPublishResult (allocated t) [] (Some er)]
      \<and> pauses pre = [] \<and> resolved pre = []
      \<and> results t' (allocated t) = Some ([], Some er)
      \<and> scheduler t' = Some s''
      \<and> (OrderingKey m \<noteq> [] \<longrightarrow> IsPaused s'' (OrderingKey m))"
  using fails
proof (elim disjE exE conjE)
  fix fc
  assume "acquire (flowController (initBundler e t)) c (proto_Size e (toPb m)) = Returns (Some er, fc)"
  from Publish_acquire_error [OF ord run sched this] obtain t' where
    "Publish e c m t = Returns (allocated t, t')"
    "trace t' = trace t @ [EvAcquire (proto_Size e (toPb m))]
                  @ [EvPause (OrderingKey m), EvSetPublishResult (allocated t) [] (Some er)]"
    "results t' = (results t)(allocated t \<mapsto> ([], Some er))"
    "scheduler t' = Some (Pause s (OrderingKey m))"
    by auto
  then have "Publish e c m t = Returns (allocated t, t')
      \<and> trace t' = trace t @ [EvAcquire (proto_Size e (toPb m))]
                      @ [EvPause (OrderingKey m), EvSetPublishResult (allocated t) [] (Some er)]
      \<and> pauses [EvAcquire (proto_Size e (toPb m))] = []
      \<and> resolved [EvAcquire (proto_Size e (toPb m))] = []
      \<and> results t' (allocated t) = Some ([], Some er)
      \<and> scheduler t' = Some (Pause s (OrderingKey m))
      \<and> (OrderingKey m \<noteq> [] \<longrightarrow> IsPaused (Pause s (OrderingKey m)) (OrderingKey m))"
    using IsPaused_Pause by simp
  then show ?thesis
    by - (rule exI [of _ t'], rule exI [of _ "[EvAcquire (proto_Size e (toPb m))]"],
        rule exI [of _ "Pause s (OrderingKey m)"], assumption)
next
  fix fc s'
  let ?pre = "[EvAcquire (proto_Size e (toPb m)),
               EvAdd (OrderingKey m) (allocated t) (proto_Size e (toPb m))]"
  assume "acquire (flowController (initBundler e t)) c (proto_Size e (toPb m)) = Returns (None, fc)"
    and "Add s (OrderingKey m) \<lparr>bm_msg = m, bm_res = allocated t, bm_size = proto_Size e (toPb m)\<rparr>
           (proto_Size e (toPb m)) = (Some er, s')"
  from Publish_Add_error [OF ord run sched this] obtain t' where
    "Publish e c m t = Returns (allocated t, t')"
    "trace t' = trace t @ ?pre @ [EvPause (OrderingKey m), EvSetPublishResult (allocated t) [] (Some er)]"
    "results t' = (results t)(allocated t \<mapsto> ([], Some er))"
    "scheduler t' = Some (Pause s' (OrderingKey m))"
    by auto
  then have "Publish e c m t = Returns (allocated t, t')
      \<and> trace t' = trace t @ ?pre @ [EvPause (OrderingKey m), EvSetPublishResult (allocated t) [] (Some er)]
      \<and> pauses ?pre = [] \<and> resolved ?pre = []
      \<and> results t' (allocated t) = Some ([], Some er)
      \<and> scheduler t' = Some (Pause s' (OrderingKey m))
      \<and> (OrderingKey m \<noteq> [] \<longrightarrow> IsPaused (Pause s' (OrderingKey m)) (OrderingKey m))"
    using IsPaused_Pause by simp
  then show ?thesis
    by - (rule exI [of _ t'], rule exI [of _ ?pre],
        rule exI [of _ "Pause s' (OrderingKey m)"], assumption)
qed

theorem Publish_admission_failure_pauses_witness:
  "EnableMessageOrdering ex_limited
   \<and> \<not> stopped ex_limited
   \<and> scheduler (initBundler ex_env ex_limited) = Some ((ex_scheduler ''up'')\<lparr>BufferedByteLimit_sch := maxInt\<rparr>)
   \<and> acquire (flowController (initBundler ex_env ex_limited)) CtxLive (proto_Size ex_env (toPb ex_keyed))
       = Returns (Some ErrFlowControlCapacityExceeded, flowController (initBundler ex_env ex_limited))
   \<and> (\<exists>t' s''. Publish ex_env CtxLive ex_keyed ex_limited = Returns (0, t')
         \<and> trace t' = [EvAcquire 4, EvPause ''k'', EvSetPublishResult 0 [] (Some ErrFlowControlCapacityExceeded)]
         \<and> results t' 0 = Some ([], Some ErrFlowControlCapacityExceeded)
         \<and> scheduler t' = Some s''
         \<and> IsPaused s'' ''k'')"
proof -
  have h1: "EnableMessageOrdering ex_limited \<or> OrderingKey ex_keyed = []"
    and h2: "\<not> stopped ex_limited"
    and h3: "scheduler (initBundler ex_env ex_limited) = Some ((ex_scheduler ''up'')\<lparr>BufferedByteLimit_sch := maxInt\<rparr>)"
    by (simp_all add: ex_limited_fields)
  have sz: "proto_Size ex_env (toPb ex_keyed) = 4"
    by (simp add: ex_env_def toPb_def ex_keyed_def)
  have h4: "acquire (flowController (initBundler ex_env ex_limited)) CtxLive (proto_Size ex_env (toPb ex_keyed))
       = Returns (Some ErrFlowControlCapacityExceeded, flowController (initBundler ex_env ex_limited))"
    by (simp add: sz ex_limited_fields acquire_def has_capacity_def)
  from Publish_admission_failure_pauses [OF h1 h2 h3, of CtxLive ErrFlowControlCapacityExceeded] h4
  obtain t' pre s'' where t': "Publish ex_env CtxLive ex_keyed ex_limited = Returns (allocated ex_limited, t')"
    "trace t' = trace ex_limited @ pre @ [EvPause (OrderingKey ex_keyed),
        EvSetPublishResult (allocated ex_limited) [] (Some ErrFlowControlCapacityExceeded)]"
    "results t' (allocated ex_limited) = Some ([], Some ErrFlowControlCapacityExceeded)"
    "scheduler t' = Some s''"
    "OrderingKey ex_keyed \<noteq> [] \<longrightarrow> IsPaused s'' (OrderingKey ex_keyed)"
    by blast
  from Publish_acquire_error [OF h1 h2 h3 h4] t'(1)
  have "trace t' = trace ex_limited @ [EvAcquire (proto_Size ex_env (toPb ex_keyed)),
      EvPause (OrderingKey ex_keyed), EvSetPublishResult (allocated ex_limited) [] (Some ErrFlowControlCapacityExceeded)]"
    by auto
  with t' sz have "Publish ex_env CtxLive ex_keyed ex_limited = Returns (0, t')
         \<and> trace t' = [EvAcquire 4, EvPause ''k'', EvSetPublishResult 0 [] (Some ErrFlowControlCapacityExceeded)]
         \<and> results t' 0 = Some ([], Some ErrFlowControlCapacityExceeded)
         \<and> scheduler t' = Some s''
         \<and> IsPaused s'' ''k''"
    by (simp add: ex_limited_fields ex_keyed_def)
  then have "\<exists>t' s''. Publish ex_env CtxLive ex_keyed ex_limited = Returns (0, t')
         \<and> trace t' = [EvAcquire 4, EvPause ''k'', EvSetPublishResult 0 [] (Some ErrFlowControlCapacityExceeded)]
         \<and> results t' 0 = Some ([], Some ErrFlowControlCapacityExceeded)
         \<and> scheduler t' = Some s''
         \<and> IsPaused s'' ''k''"
    by - (rule exI [of _ t'], rule exI [of _ s''], assumption)
  with h1 h2 h3 h4 show ?thesis by (simp add: ex_limited_fields)
qed

subsection \<open>What every operation preserves\<close>

lemma grows_refl: "grows t t"
  by (simp add: grows_def)

lemma grows_trans: "grows t t' \<Longrightarrow> grows t' t'' \<Longrightarrow> grows t t''"
  unfolding grows_def by (metis order_trans)

lemma pmb_grows:
  assumes "publishMessageBundle e bms t = Returns t'"
  shows "grows t t'"
proof -
  from pmb_frame [OF assms] have f: "stopped t' = stopped t"
    "EnableMessageOrdering t' = EnableMessageOrdering t"
    "case scheduler t of None \<Rightarrow> scheduler t' = None
     | Some s \<Rightarrow> scheduler t' = Some s \<or> scheduler t' = Some (Pause s (bundle_key bms))"
    by simp_all
  show ?thesis
    unfolding grows_def using f keysWithErrors_Pause by (auto split: option.splits)
qed

lemma dispatch_grows:
  assumes "dispatch e k n t = Returns t'"
  shows "grows t t'"
proof (cases "scheduler t")
  case None
  with assms show ?thesis by (simp add: dispatch_def)
next
  case (Some s)
  show ?thesis
  proof (cases "take n (buffer s k) = []")
    case True
    with assms Some show ?thesis by (simp add: dispatch_def grows_refl)
  next
    case False
    let ?t1 = "t\<lparr>scheduler := Some (s\<lparr>bundlers := AList.update k (drop n (buffer s k)) (bundlers s)\<rparr>)\<rparr>"
    from assms Some False have "publishMessageBundle e (take n (buffer s k)) ?t1 = Returns t'"
      by (simp add: dispatch_def)
    from pmb_grows [OF this] have "grows ?t1 t'" .
    moreover have "grows t ?t1" by (simp add: grows_def Some)
    ultimately show ?thesis by (rule grows_trans [rotated])
  qed
qed

lemma flush_keys_grows: "flush_keys e ks t = Returns t' \<Longrightarrow> grows t t'"
proof (induction ks arbitrary: t)
  case Nil
  then show ?case by (simp add: grows_refl)
next
  case (Cons k ks)
  from Cons.prems obtain s t1 where "scheduler t = Some s"
    "dispatch e k (length (buffer s k)) t = Returns t1" "flush_keys e ks t1 = Returns t'"
    by (auto simp add: obind_Returns_iff split: option.splits)
  with Cons.IH [of t1] dispatch_grows [of e k _ t t1] show ?case
    by (blast intro: grows_trans)
qed

lemma Flush_grows: "Flush e t = Returns t' \<Longrightarrow> grows t t'"
  by (auto simp add: Flush_def t_scheduler_Flush_def grows_refl split: if_splits option.splits
      dest: flush_keys_grows)

lemma FlushAndStop_grows: "t_scheduler_FlushAndStop e t = Returns t' \<Longrightarrow> grows t t'"
proof -
  assume "t_scheduler_FlushAndStop e t = Returns t'"
  then obtain s t1 s1 where "scheduler t = Some s" "flush_keys e (map fst (bundlers s)) t = Returns t1"
    "scheduler t1 = Some s1" "t' = t1\<lparr>scheduler := Some (s1\<lparr>stopped_sch := True\<rparr>)\<rparr>"
    by (auto simp add: t_scheduler_FlushAndStop_def t_scheduler_Flush_def obind_Returns_iff
        split: option.splits)
  note f = this
  from f(2) have "grows t t1" by (rule flush_keys_grows)
  moreover from f(3,4) have "grows t1 t'" by (simp add: grows_def)
  ultimately show ?thesis by (rule grows_trans)
qed

lemma Stop_stopped: "Stop e t = Returns t' \<Longrightarrow> stopped t' \<and> grows t t'"
proof -
  assume a: "Stop e t = Returns t'"
  have g: "grows t (t\<lparr>stopped := True\<rparr>)" by (simp add: grows_def)
  show ?thesis
  proof (cases "stopped t \<or> scheduler t = None")
    case True
    with a have "t' = t\<lparr>stopped := True\<rparr>" by (auto simp add: Stop_def Let_def)
    with g show ?thesis by simp
  next
    case False
    with a have "t_scheduler_FlushAndStop e (t\<lparr>stopped := True\<rparr>) = Returns t'"
      by (auto simp add: Stop_def Let_def)
    from FlushAndStop_grows [OF this] g show ?thesis
      by (auto intro: grows_trans simp add: grows_def)
  qed
qed

lemma Stop_noop: "stopped t \<Longrightarrow> Stop e t = Returns t"
  by (simp add: Stop_def Let_def)

lemma ResumePublish_frame:
  assumes "ResumePublish k t = Returns t'"
  shows "(stopped t \<longrightarrow> stopped t') \<and> EnableMessageOrdering t' = EnableMessageOrdering t
     \<and> (\<forall>s. scheduler t = Some s \<longrightarrow>
           (\<exists>s'. scheduler t' = Some s' \<and> keysWithErrors s - {k} \<subseteq> keysWithErrors s'))"
  using assms
  by (auto simp add: ResumePublish_def t_scheduler_Resume_def Resume_def Let_def
      split: if_splits option.splits)

lemma Publish_grows:
  assumes "Publish e c m t = Returns (r, t')"
  shows "grows t t'"
proof (cases "\<not> EnableMessageOrdering t \<and> OrderingKey m \<noteq> []")
  case True
  with assms Publish_ordering_not_enabled [of t m e c] show ?thesis
    by (auto simp add: grows_def)
next
  case False
  then have ord: "EnableMessageOrdering t \<or> OrderingKey m = []" by blast
  show ?thesis
  proof (cases "stopped t")
    case True
    with assms Publish_stopped [OF ord, of e c] show ?thesis
      by (auto simp add: grows_def)
  next
    case run: False
    from initBundler_Some [OF run] obtain s1 where s1: "scheduler (initBundler e t) = Some s1"
      by blast
    have same: "scheduler t = Some s \<Longrightarrow> s1 = s" for s
      using s1 by (simp add: initBundler_noop)
    let ?sz = "proto_Size e (toPb m)"
    show ?thesis
    proof (cases "acquire (flowController (initBundler e t)) c ?sz")
      case Blocks
      with Publish_blocks [OF ord run] assms show ?thesis by simp
    next
      case Panics
      then show ?thesis by (simp add: acquire_not_Panics)
    next
      case (Returns p)
      obtain err fc where p: "p = (err, fc)" by (cases p)
      show ?thesis
      proof (cases err)
        case (Some er)
        from Publish_acquire_error [OF ord run s1 Returns [unfolded p Some]] assms
        have "stopped t' = stopped t" "EnableMessageOrdering t' = EnableMessageOrdering t"
          "scheduler t' = Some (Pause s1 (OrderingKey m))"
          by auto
        with same keysWithErrors_Pause show ?thesis
          by (auto simp add: grows_def)
      next
        case None
        obtain err' s2 where add: "Add s1 (OrderingKey m)
            \<lparr>bm_msg = m, bm_res = allocated t, bm_size = ?sz\<rparr> ?sz = (err', s2)"
          by (cases "Add s1 (OrderingKey m) \<lparr>bm_msg = m, bm_res = allocated t, bm_size = ?sz\<rparr> ?sz")
        from Add_keysWithErrors [OF add] have k2: "keysWithErrors s2 = keysWithErrors s1" .
        show ?thesis
        proof (cases err')
          case (Some er)
          from Publish_Add_error [OF ord run s1 Returns [unfolded p None] add [unfolded Some]] assms
          have "stopped t' = stopped t" "EnableMessageOrdering t' = EnableMessageOrdering t"
            "scheduler t' = Some (Pause s2 (OrderingKey m))"
            by auto
          with same keysWithErrors_Pause [of s2] k2 show ?thesis
            by (auto simp add: grows_def)
        next
          case None': None
          from Publish_admitted [OF ord run s1 Returns [unfolded p None] add [unfolded None']] assms
          have "stopped t' = stopped t" "EnableMessageOrdering t' = EnableMessageOrdering t"
            "scheduler t' = Some s2"
            by auto
          with same k2 show ?thesis
            by (auto simp add: grows_def)
        qed
      qed
    qed
  qed
qed

lemma step_grows:
  assumes "step e x t = Returns t'" "\<forall>k. x \<noteq> OpResumePublish k"
  shows "grows t t'"
proof (cases x)
  case (OpPublish c m)
  with assms(1) obtain r where "Publish e c m t = Returns (r, t')"
    by (auto simp add: obind_Returns_iff)
  then show ?thesis by (rule Publish_grows)
next
  case OpStop
  with assms(1) Stop_stopped [of e t t'] show ?thesis by simp
next
  case OpFlush
  with assms(1) Flush_grows [of e t t'] show ?thesis by simp
next
  case (OpResumePublish k)
  with assms(2) show ?thesis by simp
next
  case (OpDispatch k n)
  with assms(1) dispatch_grows [of e k n t t'] show ?thesis by simp
qed

lemma step_stopped:
  assumes "step e x t = Returns t'" "stopped t"
  shows "stopped t'"
proof (cases "\<exists>k. x = OpResumePublish k")
  case True
  with assms ResumePublish_frame show ?thesis by auto
next
  case False
  with step_grows [OF assms(1)] assms(2) show ?thesis by (simp add: grows_def)
qed

lemma run_stopped: "run e ops t = Returns t' \<Longrightarrow> stopped t \<Longrightarrow> stopped t'"
proof (induction ops arbitrary: t)
  case Nil
  then show ?case by simp
next
  case (Cons x ops)
  from Cons.prems(1) obtain t1 where "step e x t = Returns t1" "run e ops t1 = Returns t'"
    by (auto simp add: obind_Returns_iff)
  with Cons.IH [of t1] step_stopped [of e x t t1] Cons.prems(2) show ?case by blast
qed

lemma step_paused:
  assumes "step e x t = Returns t'" "x \<noteq> OpResumePublish k"
    and "scheduler t = Some s" "k \<in> keysWithErrors s"
  shows "\<exists>s'. scheduler t' = Some s' \<and> k \<in> keysWithErrors s'"
proof (cases "\<exists>k'. x = OpResumePublish k'")
  case True
  then obtain k' where x: "x = OpResumePublish k'" by blast
  with assms(2) have "k' \<noteq> k" by blast
  with assms(1,3,4) x ResumePublish_frame [of k' t t'] show ?thesis by auto
next
  case False
  with step_grows [OF assms(1)] assms(3,4) show ?thesis by (auto simp add: grows_def)
qed

lemma run_paused:
  "run e ops t = Returns t' \<Longrightarrow> OpResumePublish k \<notin> set ops \<Longrightarrow>
     scheduler t = Some s \<Longrightarrow> k \<in> keysWithErrors s \<Longrightarrow>
     \<exists>s'. scheduler t' = Some s' \<and> k \<in> keysWithErrors s'"
proof (induction ops arbitrary: t s)
  case Nil
  then show ?case by simp
next
  case (Cons x ops)
  from Cons.prems(1) obtain t1 where t1: "step e x t = Returns t1" "run e ops t1 = Returns t'"
    by (auto simp add: obind_Returns_iff)
  from Cons.prems(2) have "x \<noteq> OpResumePublish k" "OpResumePublish k \<notin> set ops" by auto
  from step_paused [OF t1(1) this(1) Cons.prems(3,4)] obtain s1 where
    "scheduler t1 = Some s1" "k \<in> keysWithErrors s1" by blast
  from Cons.IH [OF t1(2) \<open>OpResumePublish k \<notin> set ops\<close> this] show ?case .
qed

subsection \<open>Paused keys\<close>

text \<open>
  Claim C3. Let the ordering key \<open>k\<close> be paused, and let any sequence of operations follow
  (calls of \<^verbatim>\<open>Publish\<close>, \<^verbatim>\<open>Stop\<close>, \<^verbatim>\<open>Flush\<close>, \<^verbatim>\<open>ResumePublish\<close> for other keys, bundles
  handled by workers) that does not call \<^verbatim>\<open>ResumePublish\<close> for \<open>k\<close>. Then \<open>k\<close> is still
  paused; every \<^verbatim>\<open>Add\<close> for \<open>k\<close> returns the publishing-paused error of \<open>k\<close> and leaves the
  scheduler as it was, so the item is not buffered; a \<^verbatim>\<open>Publish\<close> of a message with key \<open>k\<close>
  that reaches \<^verbatim>\<open>Add\<close> (ordering enabled, publisher not stopped, capacity acquired)
  returns a handle resolved with that error, so the message is not dropped silently, and
  leaves the partitions as they were; a bundle of key \<open>k\<close> that a worker handles in this
  state (its items were admitted before the key was paused) is not sent, and each of its
  handles is resolved with that error; and \<^verbatim>\<open>ResumePublish\<close> for \<open>k\<close> returns with \<open>k\<close>
  active again.
\<close>

theorem paused_key_rejects_until_resumed:
  assumes sched: "scheduler t = Some s" and paused: "IsPaused s k"
    and ops: "OpResumePublish k \<notin> set ops" and run: "run e ops t = Returns t'"
  shows "\<exists>s'. scheduler t' = Some s'
      \<and> IsPaused s' k
      \<and> (\<forall>item sz. Add s' k item sz = (Some (ErrPublishingPaused k), s'))
      \<and> (\<forall>c m fc. OrderingKey m = k \<and> EnableMessageOrdering t' \<and> \<not> stopped t'
            \<and> acquire (flowController t') c (proto_Size e (toPb m)) = Returns (None, fc) \<longrightarrow>
            (\<exists>t''. Publish e c m t' = Returns (allocated t', t'')
               \<and> results t'' (allocated t') = Some ([], Some (ErrPublishingPaused k))
               \<and> (\<exists>s''. scheduler t'' = Some s'' \<and> bundlers s'' = bundlers s' \<and> IsPaused s'' k)))
      \<and> (\<forall>bms. bundle_key bms = k \<and> k \<noteq> [] \<longrightarrow>
            (\<exists>t'' evs. publishMessageBundle e bms t' = Returns t''
               \<and> trace t'' = trace t' @ evs \<and> rpcs evs = []
               \<and> (\<forall>bm \<in> set bms. results t'' (bm_res bm) = Some ([], Some (ErrPublishingPaused k)))))
      \<and> (\<exists>t''. ResumePublish k t' = Returns t'' \<and> scheduler t'' = Some (Resume s' k)
            \<and> \<not> IsPaused (Resume s' k) k)"
proof -
  from run_paused [OF run ops sched] paused obtain s' where
    s': "scheduler t' = Some s'" "IsPaused s' k"
    by (auto simp add: IsPaused_def)
  have add: "\<forall>item sz. Add s' k item sz = (Some (ErrPublishingPaused k), s')"
    using Add_paused [OF s'(2)] by simp
  have init: "initBundler e t' = t'"
    using s'(1) by (simp add: initBundler_noop)
  have pub: "\<exists>t''. Publish e c m t' = Returns (allocated t', t'')
               \<and> results t'' (allocated t') = Some ([], Some (ErrPublishingPaused k))
               \<and> (\<exists>s''. scheduler t'' = Some s'' \<and> bundlers s'' = bundlers s' \<and> IsPaused s'' k)"
    if m: "OrderingKey m = k" "EnableMessageOrdering t'" "\<not> stopped t'"
      "acquire (flowController t') c (proto_Size e (toPb m)) = Returns (None, fc)" for c m fc
  proof -
    have "Add s' (OrderingKey m) \<lparr>bm_msg = m, bm_res = allocated t', bm_size = proto_Size e (toPb m)\<rparr>
           (proto_Size e (toPb m)) = (Some (ErrPublishingPaused k), s')"
      using add m(1) by simp
    from Publish_Add_error [of t' m e s' c fc "ErrPublishingPaused k" s'] this m s'(1) init
    obtain t'' where "Publish e c m t' = Returns (allocated t', t'')"
      "results t'' = (results t')(allocated t' \<mapsto> ([], Some (ErrPublishingPaused k)))"
      "scheduler t'' = Some (Pause s' k)"
      by auto
    moreover have "bundlers (Pause s' k) = bundlers s'" "IsPaused (Pause s' k) k"
      using s'(2) by (auto simp add: Pause_def IsPaused_def)
    ultimately show ?thesis by simp
  qed
  have disp: "\<exists>t'' evs. publishMessageBundle e bms t' = Returns t''
               \<and> trace t'' = trace t' @ evs \<and> rpcs evs = []
               \<and> (\<forall>bm \<in> set bms. results t'' (bm_res bm) = Some ([], Some (ErrPublishingPaused k)))"
    if "bundle_key bms = k" "k \<noteq> []" for bms
    using pmb_paused_outcome [OF s'(1), of bms e] that s'(2) by simp
  have res: "\<exists>t''. ResumePublish k t' = Returns t'' \<and> scheduler t'' = Some (Resume s' k)
            \<and> \<not> IsPaused (Resume s' k) k"
    using s'(1) by (simp add: ResumePublish_def t_scheduler_Resume_def Resume_def IsPaused_def)
  from s' add pub disp res show ?thesis by blast
qed

theorem paused_key_rejects_until_resumed_witness:
  "scheduler ex_paused = Some (Pause (ex_scheduler ''up'') ''k'')
   \<and> IsPaused (Pause (ex_scheduler ''up'') ''k'') ''k''
   \<and> OpResumePublish ''k'' \<notin> set [OpPublish CtxLive ex_keyed, OpFlush, OpResumePublish ''j'']
   \<and> (\<exists>t' s'. run ex_env [OpPublish CtxLive ex_keyed, OpFlush, OpResumePublish ''j''] ex_paused = Returns t'
         \<and> scheduler t' = Some s'
         \<and> IsPaused s' ''k''
         \<and> Add s' ''k'' (hd ex_bundle) 5 = (Some (ErrPublishingPaused ''k''), s')
         \<and> \<not> IsPaused (Resume s' ''k'') ''k'')"
proof -
  let ?ops = "[OpPublish CtxLive ex_keyed, OpFlush, OpResumePublish ''j'']"
  have h1: "scheduler ex_paused = Some (Pause (ex_scheduler ''up'') ''k'')"
    by (rule ex_paused_fields)
  have h2: "IsPaused (Pause (ex_scheduler ''up'') ''k'') ''k''"
    by (simp add: IsPaused_def Pause_def)
  have h3: "OpResumePublish ''k'' \<notin> set ?ops"
    by simp
  have ord: "EnableMessageOrdering ex_paused \<or> OrderingKey ex_keyed = []"
    and live: "\<not> stopped ex_paused"
    and init: "scheduler (initBundler ex_env ex_paused) = Some (Pause (ex_scheduler ''up'') ''k'')"
    by (simp_all add: ex_paused_fields initBundler_noop)
  have acq: "acquire (flowController (initBundler ex_env ex_paused)) CtxLive (proto_Size ex_env (toPb ex_keyed))
      = Returns (None, reserve (flowController ex_paused) (proto_Size ex_env (toPb ex_keyed)))"
    by (simp add: initBundler_noop ex_paused_fields acquire_def)
  have add: "Add (Pause (ex_scheduler ''up'') ''k'') (OrderingKey ex_keyed)
      \<lparr>bm_msg = ex_keyed, bm_res = allocated ex_paused, bm_size = proto_Size ex_env (toPb ex_keyed)\<rparr>
      (proto_Size ex_env (toPb ex_keyed)) = (Some (ErrPublishingPaused ''k''), Pause (ex_scheduler ''up'') ''k'')"
    using Add_paused [OF h2] by (simp add: ex_keyed_def)
  from Publish_Add_error [OF ord live init acq add] obtain t1 where
    t1: "Publish ex_env CtxLive ex_keyed ex_paused = Returns (allocated ex_paused, t1)"
      "scheduler t1 = Some (Pause (Pause (ex_scheduler ''up'') ''k'') (OrderingKey ex_keyed))"
      "stopped t1 = stopped ex_paused"
    by blast
  have "\<exists>t'. run ex_env ?ops ex_paused = Returns t'"
    using t1 live
    by (simp add: Flush_def t_scheduler_Flush_def Pause_def ex_scheduler_def ResumePublish_def
        t_scheduler_Resume_def)
  then obtain t' where h4: "run ex_env ?ops ex_paused = Returns t'" by blast
  from paused_key_rejects_until_resumed [OF h1 h2 h3 h4] obtain s' where
    "scheduler t' = Some s'" "IsPaused s' ''k''"
    "\<forall>item sz. Add s' ''k'' item sz = (Some (ErrPublishingPaused ''k''), s')"
    "\<not> IsPaused (Resume s' ''k'') ''k''"
    by blast
  with h4 have "\<exists>t' s'. run ex_env ?ops ex_paused = Returns t'
         \<and> scheduler t' = Some s'
         \<and> IsPaused s' ''k''
         \<and> Add s' ''k'' (hd ex_bundle) 5 = (Some (ErrPublishingPaused ''k''), s')
         \<and> \<not> IsPaused (Resume s' ''k'') ''k''"
    by - (rule exI [of _ t'], rule exI [of _ s'], simp)
  with h1 h2 h3 show ?thesis by simp
qed

subsection \<open>After Stop\<close>

text \<open>
  Claim C5 as stated fails for a message with an ordering key on a publisher whose
  \<^verbatim>\<open>EnableMessageOrdering\<close> is false: after \<^verbatim>\<open>Stop\<close>, \<^verbatim>\<open>Publish\<close> resolves the handle with
  \<^verbatim>\<open>errTopicOrderingNotEnabled\<close>, not with \<^verbatim>\<open>ErrTopicStopped\<close>, since the ordering check
  comes before the stopped check.
\<close>

theorem Stop_then_Publish_counterexample:
  "Stop ex_env (newPublisher ''up'') = Returns ex_stopped
   \<and> result_of (Publish ex_env CtxLive ex_keyed ex_stopped) = Some ([], Some ErrTopicOrderingNotEnabled)
   \<and> result_of (Publish ex_env CtxLive ex_keyed ex_stopped) \<noteq> Some ([], Some ErrTopicStopped)"
proof -
  have "Stop ex_env (newPublisher ''up'') = Returns ex_stopped"
    by (simp add: Stop_def Let_def ex_stopped_def newPublisher_def)
  moreover have "\<not> EnableMessageOrdering ex_stopped" "OrderingKey ex_keyed \<noteq> []"
    by (simp_all add: ex_stopped_def newPublisher_def ex_keyed_def)
  from Publish_ordering_not_enabled [OF this, of ex_env CtxLive]
  have "result_of (Publish ex_env CtxLive ex_keyed ex_stopped) = Some ([], Some ErrTopicOrderingNotEnabled)"
    by (simp add: result_of_def)
  ultimately show ?thesis by simp
qed

text \<open>
  Claim C5, amended. After \<^verbatim>\<open>Stop\<close> has returned, and after any further operations,
  the publisher is stopped; every \<^verbatim>\<open>Publish\<close> call returns at once the state it was
  called in with one more handle, already resolved with an error, and one more entry in
  the log, that resolution: nothing is acquired and nothing is admitted. The error is
  \<^verbatim>\<open>ErrTopicStopped\<close>, unless the message has an ordering key and \<^verbatim>\<open>EnableMessageOrdering\<close>
  is false, where it is \<^verbatim>\<open>errTopicOrderingNotEnabled\<close>. Every further \<^verbatim>\<open>Stop\<close> returns
  the state unchanged.
\<close>

theorem Stop_then_Publish_stopped:
  assumes stop: "Stop e t = Returns t1" and run: "run e ops t1 = Returns t2"
  shows "stopped t2
     \<and> Publish e c m t2 =
         Returns (allocated t2,
           t2\<lparr>results := (results t2)(allocated t2 \<mapsto>
                 ([], Some (if \<not> EnableMessageOrdering t2 \<and> OrderingKey m \<noteq> []
                            then ErrTopicOrderingNotEnabled else ErrTopicStopped))),
              allocated := Suc (allocated t2),
              trace := trace t2 @ [EvSetPublishResult (allocated t2) []
                 (Some (if \<not> EnableMessageOrdering t2 \<and> OrderingKey m \<noteq> []
                        then ErrTopicOrderingNotEnabled else ErrTopicStopped))]\<rparr>)
     \<and> Stop e t2 = Returns t2"
proof -
  from Stop_stopped [OF stop] have "stopped t1" by simp
  from run_stopped [OF run this] have st: "stopped t2" .
  show ?thesis
  proof (cases "\<not> EnableMessageOrdering t2 \<and> OrderingKey m \<noteq> []")
    case True
    with Publish_ordering_not_enabled [of t2 m e c] st Stop_noop [OF st, of e] show ?thesis
      by simp
  next
    case False
    then have "EnableMessageOrdering t2 \<or> OrderingKey m = []" by blast
    from Publish_stopped [OF this st, of e c] False st Stop_noop [OF st, of e] show ?thesis
      by auto
  qed
qed

theorem Stop_then_Publish_stopped_witness:
  "Stop ex_env (ex_publisher ''up'') = Returns ex_flushed
   \<and> run ex_env [OpFlush, OpResumePublish ''k'', OpStop] ex_flushed
       = Returns (ex_flushed\<lparr>trace := [EvResume ''k'']\<rparr>)
   \<and> stopped (ex_flushed\<lparr>trace := [EvResume ''k'']\<rparr>)
   \<and> result_of (Publish ex_env CtxLive ex_keyed (ex_flushed\<lparr>trace := [EvResume ''k'']\<rparr>))
       = Some ([], Some ErrTopicStopped)
   \<and> Stop ex_env (ex_flushed\<lparr>trace := [EvResume ''k'']\<rparr>) = Returns (ex_flushed\<lparr>trace := [EvResume ''k'']\<rparr>)"
proof -
  let ?t2 = "ex_flushed\<lparr>trace := [EvResume ''k'']\<rparr>"
  have h1: "Stop ex_env (ex_publisher ''up'') = Returns ex_flushed"
    by (rule ex_Stop)
  have h2: "run ex_env [OpFlush, OpResumePublish ''k'', OpStop] ex_flushed = Returns ?t2"
    by (simp add: Flush_def ResumePublish_def Stop_def Let_def ex_flushed_fields
        t_scheduler_Resume_def Resume_def ex_scheduler_def)
  from Stop_then_Publish_stopped [OF h1 h2, of CtxLive ex_keyed]
  have "stopped ?t2"
    "result_of (Publish ex_env CtxLive ex_keyed ?t2) = Some ([], Some ErrTopicStopped)"
    "Stop ex_env ?t2 = Returns ?t2"
    by (simp_all add: result_of_def ex_flushed_fields)
  with h1 h2 show ?thesis by simp
qed

subsection \<open>The handles in the partitions\<close>

lemma fresh_None: "scheduler t = None \<Longrightarrow> fresh t"
  by (simp add: fresh_def)

lemma fresh_same_buffers:
  assumes "fresh t" "allocated t \<le> allocated t'"
    and "\<And>s'. scheduler t' = Some s' \<Longrightarrow> \<exists>s. scheduler t = Some s \<and> buffer s' = buffer s"
  shows "fresh t'"
  unfolding fresh_def
proof (intro allI impI)
  fix s' k
  assume "scheduler t' = Some s'"
  from assms(3) [OF this] obtain s where "scheduler t = Some s" "buffer s' = buffer s" by blast
  with assms(1,2) show "distinct (map bm_res (buffer s' k))
      \<and> (\<forall>bm \<in> set (buffer s' k). bm_res bm < allocated t')"
    by (fastforce simp add: fresh_def)
qed

lemma pmb_fresh:
  assumes "publishMessageBundle e bms t = Returns t'" "fresh t"
  shows "fresh t'"
proof (rule fresh_same_buffers [OF assms(2)])
  from pmb_frame [OF assms(1)] show "allocated t \<le> allocated t'" by simp
next
  fix s'
  assume "scheduler t' = Some s'"
  with pmb_frame [OF assms(1)] show "\<exists>s. scheduler t = Some s \<and> buffer s' = buffer s"
    by (auto simp add: buffer_Pause split: option.splits)
qed

lemma dispatch_fresh:
  assumes "dispatch e k n t = Returns t'" "fresh t"
  shows "fresh t'"
proof (cases "scheduler t")
  case None
  with assms show ?thesis by (simp add: dispatch_def)
next
  case (Some s)
  show ?thesis
  proof (cases "take n (buffer s k) = []")
    case True
    with assms Some show ?thesis by (simp add: dispatch_def)
  next
    case False
    let ?s1 = "s\<lparr>bundlers := AList.update k (drop n (buffer s k)) (bundlers s)\<rparr>"
    let ?t1 = "t\<lparr>scheduler := Some ?s1\<rparr>"
    from assms Some False have run: "publishMessageBundle e (take n (buffer s k)) ?t1 = Returns t'"
      by (simp add: dispatch_def)
    have "fresh ?t1"
      unfolding fresh_def
    proof (intro allI impI)
      fix s' k'
      assume "scheduler ?t1 = Some s'"
      then have s': "s' = ?s1" by simp
      from assms(2) Some have f: "distinct (map bm_res (buffer s k'))"
        "\<forall>bm \<in> set (buffer s k'). bm_res bm < allocated t" for k'
        by (simp_all add: fresh_def)
      show "distinct (map bm_res (buffer s' k'))
          \<and> (\<forall>bm \<in> set (buffer s' k'). bm_res bm < allocated ?t1)"
        using f [of k'] f [of k]
        by (auto simp add: s' buffer_update drop_map [symmetric] dest: in_set_dropD)
    qed
    from pmb_fresh [OF run this] show ?thesis .
  qed
qed

lemma flush_keys_fresh: "flush_keys e ks t = Returns t' \<Longrightarrow> fresh t \<Longrightarrow> fresh t'"
proof (induction ks arbitrary: t)
  case Nil
  then show ?case by simp
next
  case (Cons k ks)
  from Cons.prems(1) obtain s t1 where "scheduler t = Some s"
    "dispatch e k (length (buffer s k)) t = Returns t1" "flush_keys e ks t1 = Returns t'"
    by (auto simp add: obind_Returns_iff split: option.splits)
  with Cons.IH [of t1] dispatch_fresh [of e k _ t t1] Cons.prems(2) show ?case by blast
qed

lemma Flush_fresh: "Flush e t = Returns t' \<Longrightarrow> fresh t \<Longrightarrow> fresh t'"
  by (auto simp add: Flush_def t_scheduler_Flush_def split: if_splits option.splits
      dest: flush_keys_fresh)

lemma Stop_fresh:
  assumes "Stop e t = Returns t'" "fresh t"
  shows "fresh t'"
proof (cases "stopped t \<or> scheduler t = None")
  case True
  with assms(1) have "t' = t\<lparr>stopped := True\<rparr>" by (auto simp add: Stop_def Let_def)
  with assms(2) show ?thesis by (simp add: fresh_def)
next
  case False
  with assms(1) obtain s t1 s1 where "scheduler t = Some s"
    "flush_keys e (map fst (bundlers s)) (t\<lparr>stopped := True\<rparr>) = Returns t1"
    "scheduler t1 = Some s1" "t' = t1\<lparr>scheduler := Some (s1\<lparr>stopped_sch := True\<rparr>)\<rparr>"
    by (auto simp add: Stop_def Let_def t_scheduler_FlushAndStop_def t_scheduler_Flush_def
        obind_Returns_iff split: option.splits)
  note f = this
  from assms(2) have "fresh (t\<lparr>stopped := True\<rparr>)" by (simp add: fresh_def)
  from flush_keys_fresh [OF f(2) this] have "fresh t1" .
  with f(3,4) show ?thesis by (simp add: fresh_def buffer_def)
qed

lemma ResumePublish_fresh: "ResumePublish k t = Returns t' \<Longrightarrow> fresh t \<Longrightarrow> fresh t'"
  by (auto simp add: ResumePublish_def t_scheduler_Resume_def Let_def fresh_def buffer_Resume
      split: if_splits option.splits)

lemma initBundler_fresh: "fresh t \<Longrightarrow> fresh (initBundler e t)"
proof (cases "stopped t \<or> scheduler t \<noteq> None")
  case True
  assume "fresh t"
  with True show ?thesis by (simp add: initBundler_noop)
next
  case False
  with initBundler_scheduler [of t e] obtain s where
    "scheduler (initBundler e t) = Some s" "bundlers s = []" by auto
  then show ?thesis by (simp add: fresh_def buffer_def)
qed

lemma Publish_fresh:
  assumes "Publish e c m t = Returns (r, t')" "fresh t"
  shows "fresh t'"
proof (cases "\<not> EnableMessageOrdering t \<and> OrderingKey m \<noteq> []")
  case True
  with assms Publish_ordering_not_enabled [of t m e c] show ?thesis
    by (auto simp add: fresh_def less_Suc_eq)
next
  case False
  then have ord: "EnableMessageOrdering t \<or> OrderingKey m = []" by blast
  show ?thesis
  proof (cases "stopped t")
    case True
    with assms Publish_stopped [OF ord, of e c] show ?thesis
      by (auto simp add: fresh_def less_Suc_eq)
  next
    case run: False
    from initBundler_Some [OF run] obtain s1 where s1: "scheduler (initBundler e t) = Some s1"
      by blast
    from initBundler_fresh [OF assms(2), of e] s1
    have f1: "distinct (map bm_res (buffer s1 k))"
      "\<forall>bm \<in> set (buffer s1 k). bm_res bm < allocated t" for k
      by (simp_all add: fresh_def initBundler_frame)
    let ?sz = "proto_Size e (toPb m)"
    show ?thesis
    proof (cases "acquire (flowController (initBundler e t)) c ?sz")
      case Blocks
      with Publish_blocks [OF ord run] assms show ?thesis by simp
    next
      case Panics
      then show ?thesis by (simp add: acquire_not_Panics)
    next
      case (Returns p)
      obtain err fc where p: "p = (err, fc)" by (cases p)
      show ?thesis
      proof (cases err)
        case (Some er)
        from Publish_acquire_error [OF ord run s1 Returns [unfolded p Some]] assms(1)
        have "allocated t' = Suc (allocated t)"
          "scheduler t' = Some (Pause s1 (OrderingKey m))"
          by auto
        with f1 show ?thesis
          by (auto simp add: fresh_def buffer_Pause less_Suc_eq)
      next
        case None
        obtain err' s2 where add: "Add s1 (OrderingKey m)
            \<lparr>bm_msg = m, bm_res = allocated t, bm_size = ?sz\<rparr> ?sz = (err', s2)"
          by (cases "Add s1 (OrderingKey m) \<lparr>bm_msg = m, bm_res = allocated t, bm_size = ?sz\<rparr> ?sz")
        show ?thesis
        proof (cases err')
          case (Some er)
          from Publish_Add_error [OF ord run s1 Returns [unfolded p None] add [unfolded Some]] assms(1)
          have "allocated t' = Suc (allocated t)"
            "scheduler t' = Some (Pause s2 (OrderingKey m))"
            by auto
          moreover from Add_error_same [OF add [unfolded Some]] have "s2 = s1" .
          ultimately show ?thesis using f1
            by (auto simp add: fresh_def buffer_Pause less_Suc_eq)
        next
          case None': None
          from Publish_admitted [OF ord run s1 Returns [unfolded p None] add [unfolded None']] assms(1)
          have t': "allocated t' = Suc (allocated t)" "scheduler t' = Some s2"
            by auto
          have "distinct (map bm_res (buffer s2 k))
              \<and> (\<forall>bm \<in> set (buffer s2 k). bm_res bm < Suc (allocated t))" for k
            using f1 [of k] f1 [of "OrderingKey m"]
            by (auto simp add: Add_buffer [OF add [unfolded None']] less_Suc_eq)
          with t' show ?thesis by (simp add: fresh_def)
        qed
      qed
    qed
  qed
qed

lemma step_fresh:
  assumes "step e x t = Returns t'" "fresh t"
  shows "fresh t'"
proof (cases x)
  case (OpPublish c m)
  with assms(1) obtain r where "Publish e c m t = Returns (r, t')"
    by (auto simp add: obind_Returns_iff)
  from Publish_fresh [OF this assms(2)] show ?thesis .
next
  case OpStop
  with assms Stop_fresh [of e t t'] show ?thesis by simp
next
  case OpFlush
  with assms Flush_fresh [of e t t'] show ?thesis by simp
next
  case (OpResumePublish k)
  with assms ResumePublish_fresh [of k t t'] show ?thesis by simp
next
  case (OpDispatch k n)
  with assms dispatch_fresh [of e k n t t'] show ?thesis by simp
qed

lemma run_fresh: "run e ops t = Returns t' \<Longrightarrow> fresh t \<Longrightarrow> fresh t'"
proof (induction ops arbitrary: t)
  case Nil
  then show ?case by simp
next
  case (Cons x ops)
  from Cons.prems(1) obtain t1 where "step e x t = Returns t1" "run e ops t1 = Returns t'"
    by (auto simp add: obind_Returns_iff)
  with Cons.IH [of t1] step_fresh [of e x t t1] Cons.prems(2) show ?case by blast
qed

text \<open>
  In every state reached from a publisher whose scheduler is not initialised yet, the
  handles of a bundle a worker takes are distinct: each comes from its own \<^verbatim>\<open>Publish\<close>
  call.
\<close>

lemma reachable_bundle_distinct:
  assumes "scheduler t0 = None" "run e ops t0 = Returns t" "scheduler t = Some s"
  shows "distinct (map bm_res (take n (buffer s k)))"
proof -
  from run_fresh [OF assms(2) fresh_None [OF assms(1)]] assms(3)
  have "distinct (map bm_res (buffer s k))" by (simp add: fresh_def)
  then show ?thesis by (simp add: take_map [symmetric])
qed

end
